theory Spec2Isabelle
  imports Main "HOL-Library.FSet"
begin

section \<open>Python strings and the library functions the program calls\<close>

text \<open>
  A Python \<open>str\<close> is a sequence of Unicode code points, so a string is a list of
  natural numbers here (the program tests for U+20AC, which no 8-bit character holds).
  \<open>ustr\<close> turns an ASCII literal into such a string.
\<close>

type_synonym pystr = "nat list"

definition ustr :: "string \<Rightarrow> pystr" where
  "ustr s = map of_char s"

text \<open>
  The Unicode character database and the interpreter's integer-conversion limit are not
  part of the repository; they are parameters of the model. Each table is consulted only
  where CPython consults it:
  \<^item> \<open>isspace_tbl\<close>: \<open>Py_UNICODE_ISSPACE\<close>, asked for code points from 127 on;
  \<^item> \<open>decimal_tbl\<close>: \<open>Py_UNICODE_TODECIMAL\<close>, asked for code points from 127 on;
  \<^item> \<open>lower_tbl\<close>: the full lowercase mapping of a code point from 128 on (for capital
    sigma, whose lowercase form depends on its neighbours, either form);
  \<^item> \<open>int_max_str_digits\<close>: \<open>sys.int_info.default_max_str_digits\<close>, 4300 in current
    interpreters, 0 where the limit is absent or disabled.
\<close>

record py_env =
  isspace_tbl :: "nat \<Rightarrow> bool"
  decimal_tbl :: "nat \<Rightarrow> nat option"
  lower_tbl :: "nat \<Rightarrow> pystr"
  int_max_str_digits :: nat

text \<open>
  The exceptions that can leave a function of the program. \<open>ValueError\<close> and
  \<open>DatabaseError\<close> carry their message, \<open>FileNotFoundError\<close> the file name.
\<close>

datatype py_exn =
    ValueError pystr
  | OverflowError
  | UnboundLocalError
  | TypeError
  | IndexError
  | StopIteration
  | EOFError
  | FileNotFoundError pystr
  | DatabaseError pystr

subsection \<open>Scanning numbers\<close>

definition is_digit :: "nat \<Rightarrow> bool" where
  "is_digit c \<longleftrightarrow> 48 \<le> c \<and> c \<le> 57"

definition is_c_space :: "nat \<Rightarrow> bool" where
  \<comment> \<open>\<open>Py_ISSPACE\<close>: space, tab, newline, vertical tab, form feed, carriage return\<close>
  "is_c_space c \<longleftrightarrow> c = 32 \<or> (9 \<le> c \<and> c \<le> 13)"

fun transform_loop :: "py_env \<Rightarrow> pystr \<Rightarrow> pystr" where
  "transform_loop E [] = []"
| "transform_loop E (c # cs) =
    (if c < 127 then c # transform_loop E cs
     else if isspace_tbl E c then 32 # transform_loop E cs
     else (case decimal_tbl E c of
             None \<Rightarrow> [63]
           | Some d \<Rightarrow> (48 + d) # transform_loop E cs))"

definition transform_decimal_and_space :: "py_env \<Rightarrow> pystr \<Rightarrow> pystr" where
  \<comment> \<open>\<open>_PyUnicode_TransformDecimalAndSpaceToASCII\<close>: an ASCII string is returned as it is;
      otherwise spaces become \<open>' '\<close>, decimal digits their ASCII digit, and the first other
      character from 127 on becomes \<open>'?'\<close> and ends the result\<close>
  "transform_decimal_and_space E s =
    (if list_all (\<lambda>c. c < 128) s then s else transform_loop E s)"

definition strip_sign :: "pystr \<Rightarrow> bool \<times> pystr" where
  \<comment> \<open>an optional \<open>'+'\<close> or \<open>'-'\<close>; the flag says the number is negative\<close>
  "strip_sign s =
    (case s of
       [] \<Rightarrow> (False, [])
     | c # cs \<Rightarrow> if c = 45 then (True, cs) else if c = 43 then (False, cs) else (False, s))"

definition digits_value :: "pystr \<Rightarrow> nat" where
  "digits_value ds = foldl (\<lambda>acc c. 10 * acc + (c - 48)) 0 ds"

fun underscores_ok :: "nat \<Rightarrow> pystr \<Rightarrow> bool" where
  \<comment> \<open>underscores only between two digits; the first argument is the previous character\<close>
  "underscores_ok prev [] \<longleftrightarrow> prev \<noteq> 95"
| "underscores_ok prev (c # cs) \<longleftrightarrow>
    (if c = 95 then is_digit prev else \<not> (prev = 95 \<and> \<not> is_digit c)) \<and> underscores_ok c cs"

definition py_int :: "py_env \<Rightarrow> pystr \<Rightarrow> int option" where
  \<comment> \<open>\<open>int(s)\<close> for a string, base 10; \<open>None\<close> is \<open>ValueError\<close>. Leading and trailing
      white space is skipped; then a sign, then digits with single underscores between them;
      more than 640 digits are checked against the interpreter's limit, when it has one.\<close>
  "py_int E s =
    (let t = dropWhile is_c_space (transform_decimal_and_space E s);
         (neg, body) = strip_sign t;
         tok = takeWhile (\<lambda>c. is_digit c \<or> c = 95) body;
         rest = dropWhile (\<lambda>c. is_digit c \<or> c = 95) body;
         ds = filter is_digit tok
     in if ds = [] \<or> \<not> underscores_ok 0 tok then None
        else if 640 < length ds \<and> 0 < int_max_str_digits E \<and> int_max_str_digits E < length ds
          then None
        else if dropWhile is_c_space rest \<noteq> [] then None
        else Some (if neg then - int (digits_value ds) else int (digits_value ds)))"

subsection \<open>Double-precision values\<close>

text \<open>
  A Python \<open>float\<close> is an IEEE 754 binary64 value. \<open>Finite neg m e\<close> stands for
  \<open>(-1)\<^sup>n\<^sup>e\<^sup>g \<times> m \<times> 2\<^sup>e\<close> with \<open>m < 2\<^sup>5\<^sup>3\<close> and \<open>-1074 \<le> e \<le> 971\<close>; a normal number
  has \<open>2\<^sup>5\<^sup>2 \<le> m\<close>, a subnormal one or a zero has \<open>e = -1074\<close>.
\<close>

datatype pyfloat =
    Finite bool nat int
  | Infinity bool
  | NaN bool

fun bit_length :: "nat \<Rightarrow> nat" where
  "bit_length n = (if n = 0 then 0 else Suc (bit_length (n div 2)))"

declare bit_length.simps [simp del]

definition floor_log2 :: "nat \<Rightarrow> nat \<Rightarrow> int" where
  \<comment> \<open>\<open>\<lfloor>log\<^sub>2 (p / q)\<rfloor>\<close> for positive \<open>p\<close> and \<open>q\<close>\<close>
  "floor_log2 p q =
    (let d = int (bit_length p) - int (bit_length q)
     in if (if 0 \<le> d then q * 2 ^ nat d \<le> p else q \<le> p * 2 ^ nat (- d)) then d else d - 1)"

definition round_half_even :: "nat \<Rightarrow> nat \<Rightarrow> nat" where
  \<comment> \<open>\<open>n / d\<close> rounded to the nearest integer, ties to the even one\<close>
  "round_half_even n d =
    (let f = n div d; r = n mod d
     in if 2 * r < d then f
        else if d < 2 * r then f + 1
        else if even f then f else f + 1)"

definition round_double :: "bool \<Rightarrow> nat \<Rightarrow> nat \<Rightarrow> pyfloat option" where
  \<comment> \<open>the binary64 value nearest to \<open>\<plusminus> p / q\<close> (ties to even); \<open>None\<close> when the rounded
      value is beyond the largest finite one\<close>
  "round_double neg p q =
    (if p = 0 then Some (Finite neg 0 (- 1074))
     else
       let e = max (floor_log2 p q - 52) (- 1074);
           m = (if 0 \<le> e then round_half_even p (q * 2 ^ nat e)
                else round_half_even (p * 2 ^ nat (- e)) q);
           (m', e') = (if m = 2 ^ 53 then (2 ^ 52, e + 1) else (m, e))
       in if 971 < e' then None else Some (Finite neg m' e'))"

definition py_float_of_int :: "int \<Rightarrow> py_exn + pyfloat" where
  \<comment> \<open>\<open>float(n)\<close> for an \<open>int\<close>: correctly rounded, \<open>OverflowError\<close> ("int too large to
      convert to float") past the largest finite double\<close>
  "py_float_of_int v =
    (case round_double (v < 0) (nat \<bar>v\<bar>) 1 of
       None \<Rightarrow> Inl OverflowError
     | Some f \<Rightarrow> Inr f)"

definition ascii_lower :: "nat \<Rightarrow> nat" where
  "ascii_lower c = (if 65 \<le> c \<and> c \<le> 90 then c + 32 else c)"

definition parse_inf_or_nan :: "bool \<Rightarrow> pystr \<Rightarrow> pyfloat option" where
  \<comment> \<open>\<open>_Py_parse_inf_or_nan\<close>, after the sign: "inf", "infinity" or "nan" in any case\<close>
  "parse_inf_or_nan neg s =
    (let l = map ascii_lower s
     in if l = ustr ''inf'' \<or> l = ustr ''infinity'' then Some (Infinity neg)
        else if l = ustr ''nan'' then Some (NaN neg)
        else None)"

definition parse_exponent :: "pystr \<Rightarrow> int option" where
  \<comment> \<open>nothing, or \<open>e\<close>/\<open>E\<close>, an optional sign and at least one digit, up to the end\<close>
  "parse_exponent s =
    (case s of
       [] \<Rightarrow> Some 0
     | c # cs \<Rightarrow>
         if c = 101 \<or> c = 69 then
           (let (neg, ds) = strip_sign cs
            in if ds \<noteq> [] \<and> list_all is_digit ds
               then Some (if neg then - int (digits_value ds) else int (digits_value ds))
               else None)
         else None)"

definition parse_decimal :: "bool \<Rightarrow> pystr \<Rightarrow> pyfloat option" where
  \<comment> \<open>\<open>_Py_dg_strtod\<close> on the whole string, after the sign: digits, an optional point and
      digits (at least one digit in all), an optional exponent. A value too large to
      represent is an infinity: \<open>float()\<close> passes no overflow exception.\<close>
  "parse_decimal neg s =
    (let ip = takeWhile is_digit s;
         r1 = dropWhile is_digit s;
         (fp, r2) = (case r1 of
                       [] \<Rightarrow> ([], [])
                     | c # cs \<Rightarrow> if c = 46 then (takeWhile is_digit cs, dropWhile is_digit cs)
                                else ([], r1))
     in if ip @ fp = [] then None
        else (case parse_exponent r2 of
                None \<Rightarrow> None
              | Some x \<Rightarrow>
                  let x' = x - int (length fp);
                      d = digits_value (ip @ fp);
                      r = (if 0 \<le> x' then round_double neg (d * 10 ^ nat x') 1
                           else round_double neg d (10 ^ nat (- x')))
                  in Some (case r of None \<Rightarrow> Infinity neg | Some f \<Rightarrow> f)))"

definition py_float :: "py_env \<Rightarrow> pystr \<Rightarrow> pyfloat option" where
  \<comment> \<open>\<open>float(s)\<close> for a string; \<open>None\<close> is \<open>ValueError\<close>. White space is stripped at both
      ends, underscores are accepted between digits only, and the remainder is a decimal
      number, an infinity or a NaN.\<close>
  "py_float E s =
    (let t = rev (dropWhile is_c_space (rev (dropWhile is_c_space
               (transform_decimal_and_space E s))))
     in if \<not> underscores_ok 0 t then None
        else
          let (neg, body) = strip_sign (filter (\<lambda>c. c \<noteq> 95) t)
          in (case parse_decimal neg body of
                Some f \<Rightarrow> Some f
              | None \<Rightarrow> parse_inf_or_nan neg body))"

section \<open>ValueCoercer: \<open>to_db_value\<close>\<close>

text \<open>
  The value handed to SQLite for one CSV cell: \<open>None\<close>, an \<open>int\<close>, a \<open>float\<close> or the
  cell itself.
\<close>

datatype typed_value =
    Null
  | Integer int
  | Float pyfloat
  | Text pystr

definition currency_symbols :: "nat list" where
  \<comment> \<open>the characters of \<^verbatim>\<open>'$\u20ac\xa5\xa3'\<close>: dollar, euro, yen, pound\<close>
  "currency_symbols = [36, 8364, 165, 163]"

definition str_without_currency :: "pystr \<Rightarrow> pystr" where
  \<comment> \<open>lines 45 to 48, for a cell that is not empty\<close>
  "str_without_currency str' =
    (if hd str' \<in> set currency_symbols then tl str' else str')"

definition to_db_value :: "py_env \<Rightarrow> pystr \<Rightarrow> py_exn + typed_value" where
  \<comment> \<open>\<open>Inl\<close> is an exception that leaves the function: only \<open>ValueError\<close> is caught\<close>
  "to_db_value E str' =
    (if str' = [] then Inr Null
     else
       (case py_int E (str_without_currency str') of
          Some v \<Rightarrow>
            if - (2 ^ 63) \<le> v \<and> v < 2 ^ 63 then Inr (Integer v)
            else (case py_float_of_int v of
                    Inl e \<Rightarrow> Inl e
                  | Inr f \<Rightarrow> Inr (Float f))
        | None \<Rightarrow>
            (case py_float E (str_without_currency str') of
               Some f \<Rightarrow> Inr (Float f)
             | None \<Rightarrow> Inr (Text str'))))"

definition ascii_env :: py_env where
  \<comment> \<open>an interpreter whose tables know no space, digit or letter beyond ASCII; used
      where a closed instance is evaluated\<close>
  "ascii_env =
    \<lparr>isspace_tbl = (\<lambda>_. False), decimal_tbl = (\<lambda>_. None), lower_tbl = (\<lambda>c. [c]),
     int_max_str_digits = 4300\<rparr>"


section \<open>ColumnNamer: \<open>to_column_names\<close>\<close>

definition lower_char :: "py_env \<Rightarrow> nat \<Rightarrow> pystr" where
  "lower_char E c = (if c < 128 then [ascii_lower c] else lower_tbl E c)"

definition lower :: "py_env \<Rightarrow> pystr \<Rightarrow> pystr" where
  \<comment> \<open>\<open>str.lower()\<close>\<close>
  "lower E s = concat (map (lower_char E) s)"

definition is_name_char :: "nat \<Rightarrow> bool" where
  \<comment> \<open>the class \<^verbatim>\<open>[a-z0-9_]\<close>\<close>
  "is_name_char c \<longleftrightarrow> (97 \<le> c \<and> c \<le> 122) \<or> is_digit c \<or> c = 95"

definition sub_other_chars :: "pystr \<Rightarrow> pystr" where
  \<comment> \<open>\<^verbatim>\<open>re.sub(r'[^a-z0-9_]', '_', s)\<close>: every character outside the class is one match\<close>
  "sub_other_chars s = map (\<lambda>c. if is_name_char c then c else 95) s"

text \<open>
  \<^verbatim>\<open>re.sub(r'(?<=_)_+', '', s)\<close> scans from the left. At a position whose preceding
  character (in \<open>s\<close> itself) is an underscore, \<^verbatim>\<open>_+\<close> takes the longest run of
  underscores there and the run is replaced by nothing; any other character is copied.
  The flag says whether the preceding character is an underscore.
\<close>

function sub_underscore_runs :: "bool \<Rightarrow> pystr \<Rightarrow> pystr" where
  "sub_underscore_runs after_underscore [] = []"
| "sub_underscore_runs after_underscore (c # cs) =
    (if after_underscore \<and> c = 95
     then sub_underscore_runs True (dropWhile (\<lambda>x. x = 95) cs)
     else c # sub_underscore_runs (c = 95) cs)"
  by pat_completeness auto

termination
proof (relation "measure (\<lambda>(b, s). length s)")
  show "wf (measure (\<lambda>(b, s). length s))"
    by simp
next
  fix after_underscore :: bool and c :: nat and cs :: pystr
  have "length (dropWhile (\<lambda>x. x = 95) cs) \<le> length cs"
    by (rule length_dropWhile_le)
  then show "((True, dropWhile (\<lambda>x. x = 95) cs), (after_underscore, c # cs))
      \<in> measure (\<lambda>(b, s). length s)"
    by simp
next
  fix after_underscore :: bool and c :: nat and cs :: pystr
  show "((c = 95, cs), (after_underscore, c # cs)) \<in> measure (\<lambda>(b, s). length s)"
    by simp
qed

definition base_name :: "py_env \<Rightarrow> pystr \<Rightarrow> pystr" where
  \<comment> \<open>lines 29 and 30\<close>
  "base_name E str' = sub_underscore_runs False (sub_other_chars (lower E str'))"

fun str_nat :: "nat \<Rightarrow> pystr" where
  \<comment> \<open>\<open>str(n)\<close> for a natural number, as the f-string formats the suffix\<close>
  "str_nat n = (if n < 10 then [48 + n] else str_nat (n div 10) @ [48 + n mod 10])"

declare str_nat.simps [simp del]

text \<open>The loop of lines 33 and 34; the set is finite, so the loop ends.\<close>

function find_suffix :: "pystr fset \<Rightarrow> pystr \<Rightarrow> nat \<Rightarrow> nat" where
  "find_suffix column_name_set str' suffix =
    (if str' @ str_nat suffix |\<in>| column_name_set
     then find_suffix column_name_set str' (suffix + 1)
     else suffix)"
  by pat_completeness auto

termination
proof (relation
    "measure (\<lambda>(S, b, k). 10 ^ Max (insert 0 (length ` fset S)) - k)")
  show "wf (measure (\<lambda>(S, b, k). 10 ^ Max (insert 0 (length ` fset S)) - k))"
    by simp
next
  fix column_name_set :: "pystr fset" and str' :: pystr and suffix :: nat
  assume mem: "str' @ str_nat suffix |\<in>| column_name_set"
  have digits: "k < 10 ^ length (str_nat k)" for k
  proof (induction k rule: str_nat.induct)
    case (1 n)
    show ?case
    proof (cases "n < 10")
      case True
      then show ?thesis
        by (subst str_nat.simps) simp
    next
      case False
      with 1 have "n div 10 < 10 ^ length (str_nat (n div 10))"
        by simp
      then have "n < 10 * 10 ^ length (str_nat (n div 10))"
        by linarith
      with False show ?thesis
        by (subst str_nat.simps) simp
    qed
  qed
  let ?M = "Max (insert 0 (length ` fset column_name_set))"
  have "length (str' @ str_nat suffix) \<in> length ` fset column_name_set"
    using mem by (rule imageI)
  then have "length (str' @ str_nat suffix) \<le> ?M"
    by (intro Max_ge) (simp_all del: length_append)
  then have "length (str_nat suffix) \<le> ?M"
    by simp
  then have "(10::nat) ^ length (str_nat suffix) \<le> 10 ^ ?M"
    by (intro power_increasing) simp_all
  with digits [of suffix] have "suffix < 10 ^ ?M"
    by linarith
  then show "((column_name_set, str', suffix + 1), (column_name_set, str', suffix))
      \<in> measure (\<lambda>(S, b, k). 10 ^ Max (insert 0 (length ` fset S)) - k)"
    by simp
qed

declare find_suffix.simps [simp del]

definition unique_name :: "pystr fset \<Rightarrow> pystr \<Rightarrow> pystr" where
  \<comment> \<open>lines 31 to 35\<close>
  "unique_name column_name_set str' =
    (if str' |\<in>| column_name_set
     then str' @ str_nat (find_suffix column_name_set str' 2)
     else str')"

definition name_column ::
  "py_env \<Rightarrow> pystr list \<times> pystr fset \<Rightarrow> pystr \<Rightarrow> pystr list \<times> pystr fset" where
  \<comment> \<open>one pass of the loop of line 28, on \<open>(column_names, column_name_set)\<close>\<close>
  "name_column E st str' =
    (let (column_names, column_name_set) = st;
         n = unique_name column_name_set (base_name E str')
     in (column_names @ [n], finsert n column_name_set))"

definition to_column_names :: "py_env \<Rightarrow> pystr list \<Rightarrow> pystr list" where
  "to_column_names E row = fst (foldl (name_column E) ([], {||}) row)"

text \<open>
  What the second substitution comes to, said without the scan: every underscore whose
  predecessor in the string is an underscore is deleted. \<open>0 # s\<close> lists the predecessor
  of each position (0, which is no underscore, before the first).
\<close>

definition drop_repeated_underscores :: "pystr \<Rightarrow> pystr" where
  "drop_repeated_underscores s =
    map snd (filter (\<lambda>(p, c). \<not> (p = 95 \<and> c = 95)) (zip (0 # s) s))"

fun has_double_underscore :: "pystr \<Rightarrow> bool" where
  "has_double_underscore (c # d # cs) \<longleftrightarrow>
    (c = 95 \<and> d = 95) \<or> has_double_underscore (d # cs)"
| "has_double_underscore cs \<longleftrightarrow> False"

section \<open>The store, the files and the console\<close>

text \<open>
  SQLite is not part of the repository: the engine is a parameter. \<open>db_execute\<close> runs
  one statement on a store and either raises or gives the new store and a cursor: the
  column names (\<open>None\<close> for a statement without result set), the rows the cursor will
  yield (a cell is \<open>None\<close> for SQL NULL) and the row count. \<open>py_str\<close> is \<open>str(value)\<close> of
  a value that is not NULL. A statement that raises leaves the store as it was.
\<close>

record 'v cursor =
  cur_description :: "pystr list option"
  cur_rows :: "'v option list list"
  cur_rowcount :: int

record ('db, 'v) engine =
  db_execute :: "'db \<Rightarrow> pystr \<Rightarrow> py_exn + 'db \<times> 'v cursor"
  db_executemany :: "'db \<Rightarrow> pystr \<Rightarrow> typed_value list list \<Rightarrow> py_exn + 'db"
  db_commit :: "'db \<Rightarrow> py_exn + 'db"
  py_str :: "'v \<Rightarrow> pystr"

text \<open>
  What the program does to the outside, in order: prompts and printed lines, the calls
  on the connection and its cursors, and the rows written to a file.
\<close>

datatype 'v event =
    Prompt pystr
  | Print pystr
  | Execute pystr
  | ExecuteMany pystr "typed_value list list"
  | Commit
  | FetchOne "'v option list option"
  | OpenWrite pystr
  | WriteRow pystr "pystr list"

text \<open>
  The world: the store, the CSV files by name (a file is the list of rows that
  \<open>csv.reader\<close> yields from it and that \<open>csv.writer\<close> wrote to it; opening a file for
  writing succeeds), the lines still to be typed, and the events so far.
\<close>

record ('db, 'v) world =
  db :: 'db
  files :: "pystr \<Rightarrow> pystr list list option"
  stdin :: "pystr list"
  trace :: "'v event list"

type_synonym ('a, 'db, 'v) io = "('db, 'v) world \<Rightarrow> (py_exn + 'a) \<times> ('db, 'v) world"

definition then_do :: "('a, 'db, 'v) io \<Rightarrow> ('a \<Rightarrow> ('b, 'db, 'v) io) \<Rightarrow> ('b, 'db, 'v) io" where
  \<comment> \<open>one statement after another: an exception of the first skips the second\<close>
  "then_do m f w = (case m w of (Inl e, w') \<Rightarrow> (Inl e, w') | (Inr a, w') \<Rightarrow> f a w')"

definition return :: "'a \<Rightarrow> ('a, 'db, 'v) io" where
  "return a w = (Inr a, w)"

definition raise :: "py_exn \<Rightarrow> ('a, 'db, 'v) io" where
  "raise e w = (Inl e, w)"

definition emit :: "'v event \<Rightarrow> ('db, 'v) world \<Rightarrow> ('db, 'v) world" where
  "emit ev w = w\<lparr>trace := trace w @ [ev]\<rparr>"

definition print :: "pystr \<Rightarrow> (unit, 'db, 'v) io" where
  "print line w = (Inr (), emit (Print line) w)"

definition input :: "pystr \<Rightarrow> (pystr, 'db, 'v) io" where
  \<comment> \<open>\<open>input(prompt)\<close>: \<open>EOFError\<close> when nothing is left to read\<close>
  "input prompt w =
    (case stdin w of
       [] \<Rightarrow> (Inl EOFError, emit (Prompt prompt) w)
     | l # ls \<Rightarrow> (Inr l, (emit (Prompt prompt) w)\<lparr>stdin := ls\<rparr>))"

definition execute :: "('db, 'v) engine \<Rightarrow> pystr \<Rightarrow> ('v cursor, 'db, 'v) io" where
  \<comment> \<open>\<open>connection.execute\<close> and \<open>cursor.execute\<close>\<close>
  "execute G stmt w =
    (case db_execute G (db w) stmt of
       Inl e \<Rightarrow> (Inl e, emit (Execute stmt) w)
     | Inr (d, c) \<Rightarrow> (Inr c, (emit (Execute stmt) w)\<lparr>db := d\<rparr>))"

definition executemany ::
  "('db, 'v) engine \<Rightarrow> pystr \<Rightarrow> typed_value list list \<Rightarrow> (unit, 'db, 'v) io" where
  "executemany G stmt vals w =
    (case db_executemany G (db w) stmt vals of
       Inl e \<Rightarrow> (Inl e, emit (ExecuteMany stmt vals) w)
     | Inr d \<Rightarrow> (Inr (), (emit (ExecuteMany stmt vals) w)\<lparr>db := d\<rparr>))"

definition commit :: "('db, 'v) engine \<Rightarrow> (unit, 'db, 'v) io" where
  "commit G w =
    (case db_commit G (db w) of
       Inl e \<Rightarrow> (Inl e, emit Commit w)
     | Inr d \<Rightarrow> (Inr (), (emit Commit w)\<lparr>db := d\<rparr>))"

definition fetchone ::
  "'v option list list \<Rightarrow> ('v option list option \<times> 'v option list list, 'db, 'v) io" where
  \<comment> \<open>\<open>cursor.fetchone()\<close> on the rows the cursor still holds: the row (or \<open>None\<close>) and
      the rows left\<close>
  "fetchone cur w =
    (case cur of
       [] \<Rightarrow> (Inr (None, []), emit (FetchOne None) w)
     | row # rest \<Rightarrow> (Inr (Some row, rest), emit (FetchOne (Some row)) w))"

definition open_read :: "pystr \<Rightarrow> (pystr list list, 'db, 'v) io" where
  \<comment> \<open>\<open>open(filename)\<close> and \<open>csv.reader(file)\<close>: the rows of the file\<close>
  "open_read filename w =
    (case files w filename of
       None \<Rightarrow> (Inl (FileNotFoundError filename), w)
     | Some rows \<Rightarrow> (Inr rows, w))"

definition next_row :: "pystr list list \<Rightarrow> (pystr list \<times> pystr list list, 'db, 'v) io" where
  \<comment> \<open>\<open>next(reader)\<close>: the first row and the rows left, \<open>StopIteration\<close> at the end\<close>
  "next_row reader =
    (case reader of
       [] \<Rightarrow> raise StopIteration
     | row # rest \<Rightarrow> return (row, rest))"

definition open_write :: "pystr \<Rightarrow> (unit, 'db, 'v) io" where
  \<comment> \<open>\<open>open(filename, 'w')\<close>: the file is created, or emptied\<close>
  "open_write filename w =
    (Inr (), (emit (OpenWrite filename) w)\<lparr>files := (files w)(filename \<mapsto> [])\<rparr>)"

definition writerow :: "pystr \<Rightarrow> pystr list \<Rightarrow> (unit, 'db, 'v) io" where
  "writerow filename cells w =
    (Inr (), (emit (WriteRow filename cells) w)
       \<lparr>files := (files w)(filename \<mapsto> (case files w filename of
                                          None \<Rightarrow> [cells]
                                        | Some written \<Rightarrow> written @ [cells]))\<rparr>)"

subsection \<open>Small library functions\<close>

fun join :: "pystr \<Rightarrow> pystr list \<Rightarrow> pystr" where
  \<comment> \<open>\<open>sep.join(xs)\<close>\<close>
  "join sep [] = []"
| "join sep [x] = x"
| "join sep (x # y # ys) = x @ sep @ join sep (y # ys)"

fun index_of :: "'a \<Rightarrow> 'a list \<Rightarrow> nat" where
  \<comment> \<open>\<open>xs.index(x)\<close>, called only for an \<open>x\<close> that is in \<open>xs\<close> (line 75)\<close>
  "index_of x [] = 0"
| "index_of x (y # ys) = (if y = x then 0 else Suc (index_of x ys))"

fun sequence :: "('e + 'a) list \<Rightarrow> 'e + 'a list" where
  \<comment> \<open>the results of a comprehension, or the first exception\<close>
  "sequence [] = Inr []"
| "sequence (x # xs) =
    (case x of
       Inl e \<Rightarrow> Inl e
     | Inr a \<Rightarrow> (case sequence xs of Inl e \<Rightarrow> Inl e | Inr as \<Rightarrow> Inr (a # as)))"

definition quote :: pystr where
  \<comment> \<open>the quotation mark\<close>
  "quote = [34]"

definition exn_message :: "py_exn \<Rightarrow> pystr" where
  \<comment> \<open>\<open>str(exception)\<close>, with the messages of CPython 3.11\<close>
  "exn_message e =
    (case e of
       ValueError m \<Rightarrow> m
     | OverflowError \<Rightarrow> ustr ''int too large to convert to float''
     | UnboundLocalError \<Rightarrow>
         ustr ''cannot access local variable '' @ [39] @ ustr ''index'' @ [39] @
         ustr '' where it is not associated with a value''
     | TypeError \<Rightarrow> [39] @ ustr ''NoneType'' @ [39] @ ustr '' object is not iterable''
     | IndexError \<Rightarrow> ustr ''list index out of range''
     | StopIteration \<Rightarrow> []
     | EOFError \<Rightarrow> ustr ''EOF when reading a line''
     | FileNotFoundError f \<Rightarrow>
         ustr ''[Errno 2] No such file or directory: '' @ [39] @ f @ [39]
     | DatabaseError m \<Rightarrow> m)"

section \<open>Importer: \<open>import_\<close>\<close>

definition db_values :: "py_env \<Rightarrow> pystr list list \<Rightarrow> py_exn + typed_value list list" where
  \<comment> \<open>lines 99 to 101\<close>
  "db_values E rows = sequence (map (\<lambda>row. sequence (map (to_db_value E) row)) rows)"

text \<open>
  The loop of lines 94 to 107. \<open>rows\<close> is the batch just read, \<open>reader\<close> the rows the
  reader still holds; \<open>itertools.islice(reader, 10000)\<close> takes the first 10000 of them.
\<close>

function import_loop ::
  "('db, 'v) engine \<Rightarrow> py_env \<Rightarrow> pystr \<Rightarrow> nat \<Rightarrow> pystr list list \<Rightarrow> pystr list list \<Rightarrow>
     (nat, 'db, 'v) io" where
  "import_loop G E insert_sql count rows reader w =
    (if rows = [] then (Inr count, w)
     else
       then_do (if 0 < count
                then print (ustr ''Imported '' @ str_nat count @ ustr '' rows...'')
                else return ())
         (\<lambda>_. case db_values E rows of
                 Inl e \<Rightarrow> raise e
               | Inr vals \<Rightarrow>
                   then_do (executemany G insert_sql vals)
                     (\<lambda>_. then_do (commit G)
                        (\<lambda>_. import_loop G E insert_sql (count + length rows)
                                (take 10000 reader) (drop 10000 reader)))) w)"
  by pat_completeness auto

termination
  by (relation "measure (\<lambda>(G, E, insert_sql, count, rows, reader, w). length rows + length reader)")
    (auto simp: min_def)

declare import_loop.simps [simp del]

definition no_header_message :: "pystr list \<Rightarrow> pystr" where
  "no_header_message header_row =
    ustr ''There is no header in row 1, column '' @ str_nat (index_of [] header_row + 1)"

definition table_name_message :: pystr where
  "table_name_message =
    ustr ''The table name may not contain a quotation mark. Your entry '' @
    ustr ''will automatically be enclosed in quotation marks, so it '' @
    ustr ''should be an ordinary string rather than a quoted '' @
    ustr ''identifier.''"

definition column_names_sql :: "pystr list \<Rightarrow> pystr" where
  "column_names_sql column_names =
    ustr ''('' @ quote @ join (quote @ ustr '', '' @ quote) column_names @ quote @ ustr '')''"

definition create_table_sql :: "pystr \<Rightarrow> pystr list \<Rightarrow> pystr" where
  "create_table_sql table_name column_names =
    ustr ''CREATE TABLE '' @ quote @ table_name @ quote @ ustr '' '' @
    column_names_sql column_names @ ustr '';''"

definition insert_sql :: "pystr \<Rightarrow> pystr list \<Rightarrow> pystr" where
  "insert_sql table_name column_names =
    ustr ''INSERT INTO '' @ quote @ table_name @ quote @ ustr '' '' @
    column_names_sql column_names @ ustr '' VALUES ('' @
    join (ustr '', '') (replicate (length column_names) (ustr ''?'')) @ ustr '');''"

definition import' :: "('db, 'v) engine \<Rightarrow> py_env \<Rightarrow> (unit, 'db, 'v) io" where
  "import' G E =
    then_do (input (ustr ''Enter a CSV file to import: ''))
      (\<lambda>filename.
         then_do (open_read filename)
           (\<lambda>file.
              then_do (next_row file)
                (\<lambda>(header_row, reader).
                   if [] \<in> set header_row
                   then raise (ValueError (no_header_message header_row))
                   else
                     (let column_names = to_column_names E header_row
                      in then_do (input (ustr ''Enter a SQL table name: ''))
                           (\<lambda>table_name.
                              if 34 \<in> set table_name then raise (ValueError table_name_message)
                              else
                                then_do (execute G (create_table_sql table_name column_names))
                                  (\<lambda>_. then_do (commit G)
                                     (\<lambda>_. then_do
                                        (import_loop G E (insert_sql table_name column_names) 0
                                           (take 10000 reader) (drop 10000 reader))
                                        (\<lambda>count.
                                           then_do
                                             (print (ustr ''Imported '' @ str_nat count @
                                                ustr '' row(s).''))
                                             (\<lambda>_. print
                                                (ustr ''Imported table '' @ quote @ table_name @
                                                 quote @ ustr '' with columns: '' @
                                                 join (ustr '', '') column_names @
                                                 ustr ''.''))))))))))"

section \<open>Exporter: \<open>export\<close>\<close>

definition csv_field :: "('db, 'v) engine \<Rightarrow> 'v option \<Rightarrow> pystr" where
  \<comment> \<open>the field \<open>csv.writer\<close> writes for a value: nothing for \<open>None\<close>, \<open>str(value)\<close> otherwise\<close>
  "csv_field G v = (case v of None \<Rightarrow> [] | Some x \<Rightarrow> py_str G x)"

text \<open>
  The loop of lines 133 to 136 over the rows the cursor yields. \<open>index\<close> counts the
  passes; \<open>bound\<close> is the value the variable \<open>index\<close> holds after the loop, \<open>None\<close> while
  nothing has been assigned to it.
\<close>

fun export_loop ::
  "('db, 'v) engine \<Rightarrow> pystr \<Rightarrow> nat \<Rightarrow> nat option \<Rightarrow> 'v option list list \<Rightarrow>
     (nat option, 'db, 'v) io" where
  "export_loop G filename index bound [] w = (Inr bound, emit (FetchOne None) w)"
| "export_loop G filename index bound (row # cur) w =
    then_do (if index mod 10000 = 0 \<and> 0 < index
             then print (ustr ''Exported '' @ str_nat index @ ustr '' rows...'')
             else return ())
      (\<lambda>_. then_do (writerow filename (map (csv_field G) row))
         (\<lambda>_. export_loop G filename (index + 1) (Some index) cur))
      (emit (FetchOne (Some row)) w)"

definition export :: "('db, 'v) engine \<Rightarrow> pystr \<Rightarrow> (unit, 'db, 'v) io" where
  "export G query =
    then_do
      (input (ustr ''Enter a CSV file to store the results of the most recent SQL query in: ''))
      (\<lambda>filename.
         then_do (execute G query)
           (\<lambda>cursor.
              then_do (open_write filename)
                (\<lambda>_. case cur_description cursor of
                        None \<Rightarrow> raise TypeError
                      | Some header \<Rightarrow>
                          then_do (writerow filename header)
                            (\<lambda>_. then_do (export_loop G filename 0 None (cur_rows cursor))
                               (\<lambda>bound. case bound of
                                          None \<Rightarrow> raise UnboundLocalError
                                        | Some index \<Rightarrow>
                                            print (ustr ''Exported '' @ str_nat (index + 1) @
                                              ustr '' row(s).''))))))"

section \<open>ResultPresenter and QueryRunner: \<open>print_table\<close> and \<open>execute_sql\<close>\<close>

text \<open>
  A table cell is held as the text \<open>str(value)\<close> that \<open>print_table\<close> prints and
  measures. \<open>widen\<close> is one pass of the loop of line 152: \<open>widths[index]\<close> raises
  \<open>IndexError\<close> for a row longer than the first one.
\<close>

definition widen :: "nat list \<Rightarrow> pystr list \<Rightarrow> py_exn + nat list" where
  "widen widths row =
    (if length widths < length row then Inl IndexError
     else Inr (map2 (\<lambda>width val. max width (length val)) (take (length row) widths) row
               @ drop (length row) widths))"

fun widen_all :: "nat list \<Rightarrow> pystr list list \<Rightarrow> py_exn + nat list" where
  "widen_all widths [] = Inr widths"
| "widen_all widths (row # table) =
    (case widen widths row of Inl e \<Rightarrow> Inl e | Inr widths' \<Rightarrow> widen_all widths' table)"

definition format_row :: "nat list \<Rightarrow> pystr list \<Rightarrow> pystr" where
  \<comment> \<open>lines 158 to 160: the pieces printed with \<open>end=''\<close> and the closing bar are one line\<close>
  "format_row widths row =
    concat (map (\<lambda>(val, width). ustr ''| '' @ val @ replicate (width - length val) 32 @ ustr '' '')
              (zip row widths))
    @ ustr ''|''"

fun print_lines :: "pystr list \<Rightarrow> (unit, 'db, 'v) io" where
  "print_lines [] w = (Inr (), w)"
| "print_lines (l # ls) w = then_do (print l) (\<lambda>_. print_lines ls) w"

definition print_table :: "pystr list list \<Rightarrow> (unit, 'db, 'v) io" where
  "print_table table =
    (case table of
       [] \<Rightarrow> return ()
     | first # _ \<Rightarrow>
         (case widen_all (replicate (length first) 0) table of
            Inl e \<Rightarrow> raise e
          | Inr widths \<Rightarrow> print_lines (map (format_row widths) table)))"

definition cell_text :: "('db, 'v) engine \<Rightarrow> 'v option \<Rightarrow> pystr" where
  \<comment> \<open>lines 187 to 190, then \<open>str(value)\<close>\<close>
  "cell_text G v = (case v of None \<Rightarrow> ustr ''NULL'' | Some x \<Rightarrow> py_str G x)"

text \<open>
  The loop of lines 181 to 191: \<open>n\<close> passes are left, \<open>cur\<close> are the rows the cursor
  still holds. The result is \<open>rows\<close> and what the cursor holds afterwards.
\<close>

fun fetch_rows ::
  "('db, 'v) engine \<Rightarrow> nat \<Rightarrow> 'v option list list \<Rightarrow> pystr list list \<Rightarrow>
     (pystr list list \<times> 'v option list list, 'db, 'v) io" where
  "fetch_rows G 0 cur rows w = (Inr (rows, cur), w)"
| "fetch_rows G (Suc n) cur rows w =
    then_do (fetchone cur)
      (\<lambda>(row, cur'). case row of
           None \<Rightarrow> return (rows, cur')
         | Some values \<Rightarrow> fetch_rows G n cur' (rows @ [map (cell_text G) values])) w"

definition execute_sql :: "('db, 'v) engine \<Rightarrow> pystr \<Rightarrow> (bool, 'db, 'v) io" where
  "execute_sql G query =
    then_do (execute G query)
      (\<lambda>cursor.
         then_do (commit G)
           (\<lambda>_. then_do (fetch_rows G 20 (cur_rows cursor) [])
              (\<lambda>(rows, cur).
                 case cur_description cursor of
                   Some header \<Rightarrow>
                     then_do (print_table (header # rows))
                       (\<lambda>_. if rows \<noteq> [] then
                              then_do (fetchone cur)
                                (\<lambda>(row, cur').
                                   then_do
                                     (if row \<noteq> None then print (ustr ''Output first 20 rows.'')
                                      else print (ustr ''Output all '' @ str_nat (length rows) @
                                             ustr '' row(s).''))
                                     (\<lambda>_. return True))
                            else
                              then_do (print (ustr ''Query returned zero rows.''))
                                (\<lambda>_. return True))
                 | None \<Rightarrow>
                     then_do
                       (if 0 \<le> cur_rowcount cursor
                        then print (ustr ''Modified '' @ str_nat (nat (cur_rowcount cursor)) @
                               ustr '' row(s).'')
                        else print (ustr ''Done.''))
                       (\<lambda>_. return False))))"

section \<open>The command loop: \<open>run_repl\<close>\<close>

definition repl_command ::
  "('db, 'v) engine \<Rightarrow> py_env \<Rightarrow> pystr option \<Rightarrow> pystr \<Rightarrow> (pystr option, 'db, 'v) io" where
  \<comment> \<open>lines 229 to 237; the result is \<open>last_query\<close> after the command\<close>
  "repl_command G E last_query query =
    (if query = ustr ''import'' then then_do (import' G E) (\<lambda>_. return last_query)
     else if query = ustr ''export'' then
       (case last_query of
          Some q \<Rightarrow> then_do (export G q) (\<lambda>_. return last_query)
        | None \<Rightarrow>
            then_do (print (ustr ''You must enter a SQL query before exporting.''))
              (\<lambda>_. return last_query))
     else
       then_do (execute_sql G query)
         (\<lambda>row_producing. return (if row_producing then Some query else last_query)))"

definition repl_body ::
  "('db, 'v) engine \<Rightarrow> py_env \<Rightarrow> pystr option \<Rightarrow> pystr \<Rightarrow> ('db, 'v) world \<Rightarrow>
     pystr option \<times> ('db, 'v) world" where
  \<comment> \<open>lines 228 to 239: every exception of the command is caught and printed\<close>
  "repl_body G E last_query query w =
    (case repl_command G E last_query query w of
       (Inl e, w') \<Rightarrow> (last_query, emit (Print (ustr ''Error: '' @ exn_message e)) w')
     | (Inr last_query', w') \<Rightarrow> (last_query', w'))"

subsection \<open>No command puts lines back on the input\<close>

text \<open>
  The loop of \<open>run_repl\<close> ends when \<open>input\<close> finds nothing left to read. For that, no
  command may lengthen what is left: \<open>keeps_stdin\<close> says so of an action.
\<close>

definition keeps_stdin :: "('a, 'db, 'v) io \<Rightarrow> bool" where
  "keeps_stdin m \<longleftrightarrow> (\<forall>w. length (stdin (snd (m w))) \<le> length (stdin w))"

lemma keeps_stdinI: "(\<And>w. length (stdin (snd (m w))) \<le> length (stdin w)) \<Longrightarrow> keeps_stdin m"
  by (simp add: keeps_stdin_def)

lemma keeps_stdinD: "keeps_stdin m \<Longrightarrow> length (stdin (snd (m w))) \<le> length (stdin w)"
  by (simp add: keeps_stdin_def)

lemma keeps_then_do [intro!]:
  assumes "keeps_stdin m" and "\<And>a. keeps_stdin (f a)"
  shows "keeps_stdin (then_do m f)"
proof (rule keeps_stdinI)
  fix w
  show "length (stdin (snd (then_do m f w))) \<le> length (stdin w)"
  proof (cases "m w")
    case (Pair r w')
    from keeps_stdinD [OF assms(1), of w] Pair have 1: "length (stdin w') \<le> length (stdin w)"
      by simp
    show ?thesis
    proof (cases r)
      case (Inl e)
      with Pair 1 show ?thesis by (simp add: then_do_def)
    next
      case (Inr a)
      with Pair 1 keeps_stdinD [OF assms(2), of a w'] show ?thesis
        by (simp add: then_do_def)
    qed
  qed
qed

lemma keeps_prims [intro!, simp]:
  "keeps_stdin (return a)"
  "keeps_stdin (raise e)"
  "keeps_stdin (print l)"
  "keeps_stdin (input p)"
  "keeps_stdin (execute G stmt)"
  "keeps_stdin (executemany G stmt vals)"
  "keeps_stdin (commit G)"
  "keeps_stdin (fetchone cur)"
  "keeps_stdin (open_read f)"
  "keeps_stdin (next_row reader)"
  "keeps_stdin (open_write f)"
  "keeps_stdin (writerow f cells)"
  by (auto simp: keeps_stdin_def return_def raise_def print_def input_def execute_def
      executemany_def commit_def fetchone_def open_write_def writerow_def emit_def
      open_read_def next_row_def
      split: list.splits sum.splits prod.splits option.splits)

lemma keeps_if [intro!]:
  "keeps_stdin m \<Longrightarrow> keeps_stdin n \<Longrightarrow> keeps_stdin (if b then m else n)"
  by simp

lemma keeps_import_loop: "keeps_stdin (import_loop G E sql count rows reader)"
proof (rule keeps_stdinI)
  fix w :: "('a, 'b) world"
  show "length (stdin (snd (import_loop G E sql count rows reader w))) \<le> length (stdin w)"
  proof (induction G E sql count rows reader w rule: import_loop.induct)
    case (1 G E sql count rows reader w)
    show ?case
    proof (cases "rows = []")
      case True
      then show ?thesis by (subst import_loop.simps) simp
    next
      case False
      show ?thesis
      proof (cases "db_values E rows")
        case (Inl e)
        have "keeps_stdin (then_do (if 0 < count
                then print (ustr ''Imported '' @ str_nat count @ ustr '' rows...'')
                else return ()) (\<lambda>_. raise e :: (nat, 'a, 'b) io))"
          by (intro keeps_then_do keeps_if keeps_prims)
        from keeps_stdinD [OF this, of w] False Inl show ?thesis
          by (subst import_loop.simps) simp
      next
        case (Inr vals)
        let ?rec = "import_loop G E sql (count + length rows) (take 10000 reader) (drop 10000 reader)"
        have "keeps_stdin ?rec"
          using 1 [OF False Inr] by (intro keeps_stdinI)
        then have "keeps_stdin (then_do (if 0 < count
                then print (ustr ''Imported '' @ str_nat count @ ustr '' rows...'')
                else return ()) (\<lambda>_. then_do (executemany G sql vals)
                     (\<lambda>_. then_do (commit G) (\<lambda>_. ?rec))))"
          by (intro keeps_then_do keeps_if keeps_prims)
        from keeps_stdinD [OF this, of w] False Inr show ?thesis
          by (subst import_loop.simps) simp
      qed
    qed
  qed
qed


lemma keeps_case_option [intro!]:
  "keeps_stdin m \<Longrightarrow> (\<And>x. keeps_stdin (f x)) \<Longrightarrow> keeps_stdin (case_option m f v)"
  by (cases v) simp_all

lemma keeps_case_sum [intro!]:
  "(\<And>x. keeps_stdin (f x)) \<Longrightarrow> (\<And>x. keeps_stdin (g x)) \<Longrightarrow> keeps_stdin (case_sum f g v)"
  by (cases v) simp_all

lemma keeps_case_prod [intro!]:
  "(\<And>x y. keeps_stdin (f x y)) \<Longrightarrow> keeps_stdin (case_prod f v)"
  by (cases v) simp_all

lemma keeps_export_loop: "keeps_stdin (export_loop G filename index bound cur)"
proof (induction cur arbitrary: index bound)
  case Nil
  show ?case
    by (rule keeps_stdinI) (simp add: emit_def)
next
  case (Cons row cur)
  have k: "keeps_stdin (then_do (if index mod 10000 = 0 \<and> 0 < index
             then print (ustr ''Exported '' @ str_nat index @ ustr '' rows...'')
             else return ())
      (\<lambda>_. then_do (writerow filename (map (csv_field G) row))
         (\<lambda>_. export_loop G filename (index + 1) (Some index) cur)))"
    by (intro keeps_then_do keeps_if keeps_prims Cons)
  show ?case
  proof (rule keeps_stdinI)
    fix w :: "('a, 'b) world"
    from keeps_stdinD [OF k, of "emit (FetchOne (Some row)) w"]
    show "length (stdin (snd (export_loop G filename index bound (row # cur) w)))
        \<le> length (stdin w)"
      by (simp add: emit_def)
  qed
qed

lemma keeps_export: "keeps_stdin (export G query)"
  unfolding export_def
  by (intro keeps_then_do keeps_prims keeps_case_option keeps_export_loop)

lemma keeps_print_lines: "keeps_stdin (print_lines ls :: (unit, 'db, 'v) io)"
proof (induction ls)
  case Nil
  show ?case by (rule keeps_stdinI) simp
next
  case (Cons l ls)
  have "keeps_stdin (then_do (print l) (\<lambda>_. print_lines ls) :: (unit, 'db, 'v) io)"
    by (intro keeps_then_do keeps_prims) (rule Cons)
  then show ?case
    by (simp add: keeps_stdin_def)
qed

lemma keeps_print_table: "keeps_stdin (print_table table)"
  unfolding print_table_def
  by (cases table) (auto intro!: keeps_print_lines)

lemma keeps_fetch_rows: "keeps_stdin (fetch_rows G n cur rows)"
proof (induction n arbitrary: cur rows)
  case 0
  show ?case by (rule keeps_stdinI) simp
next
  case (Suc n)
  have "keeps_stdin (then_do (fetchone cur)
      (\<lambda>(row, cur'). case row of
           None \<Rightarrow> return (rows, cur')
         | Some values \<Rightarrow> fetch_rows G n cur' (rows @ [map (cell_text G) values])))"
    by (intro keeps_then_do keeps_prims keeps_case_prod keeps_case_option Suc)
  then show ?case
    by (simp add: keeps_stdin_def)
qed

lemma keeps_execute_sql: "keeps_stdin (execute_sql G query)"
  unfolding execute_sql_def
  by (intro keeps_then_do keeps_prims keeps_case_prod keeps_case_option keeps_if
      keeps_fetch_rows keeps_print_table)

lemma keeps_import: "keeps_stdin (import' G E)"
  unfolding import'_def Let_def
  by (intro keeps_then_do keeps_prims keeps_if keeps_case_prod keeps_import_loop)

lemma keeps_repl_command: "keeps_stdin (repl_command G E last_query query)"
  unfolding repl_command_def
  by (intro keeps_then_do keeps_prims keeps_if keeps_case_option keeps_import keeps_export
      keeps_execute_sql)

lemma repl_body_stdin:
  "length (stdin (snd (repl_body G E last_query query w))) \<le> length (stdin w)"
  using keeps_stdinD [OF keeps_repl_command, of G E last_query query w]
  by (cases "repl_command G E last_query query w")
    (auto simp: repl_body_def emit_def split: sum.splits)

section \<open>The command loop, continued\<close>

text \<open>
  The loop of lines 226 to 239. \<open>input\<close> stands outside the \<open>try\<close>: its \<open>EOFError\<close>
  ends the loop and leaves \<open>run_repl\<close>. The result is that exception and the world then.
\<close>

function repl_loop ::
  "('db, 'v) engine \<Rightarrow> py_env \<Rightarrow> pystr option \<Rightarrow> ('db, 'v) world \<Rightarrow> py_exn \<times> ('db, 'v) world"
  where
  "repl_loop G E last_query w =
    (case input (ustr ''> '') w of
       (Inl e, w') \<Rightarrow> (e, w')
     | (Inr query, w') \<Rightarrow>
         (case repl_body G E last_query query w' of
            (last_query', w'') \<Rightarrow> repl_loop G E last_query' w''))"
  by pat_completeness auto

termination
proof (relation "measure (\<lambda>(G, E, last_query, w). length (stdin w))")
  show "wf (measure (\<lambda>(G, E, last_query, w). length (stdin w)))"
    by simp
next
  fix G :: "('db, 'v) engine" and E :: py_env and last_query :: "pystr option"
    and w w' w'' :: "('db, 'v) world" and r query last_query' x
  assume i: "(r, w') = input (ustr ''> '') w" and "r = Inr query"
    and b: "(last_query', w'') = repl_body G E last_query query w'"
  from i \<open>r = Inr query\<close> have "length (stdin w') < length (stdin w)"
    by (auto simp: input_def emit_def split: list.splits)
  moreover from b repl_body_stdin [of G E last_query query w']
  have "length (stdin w'') \<le> length (stdin w')"
    by (metis snd_conv)
  ultimately show "((G, E, last_query', w''), (G, E, last_query, w))
      \<in> measure (\<lambda>(G, E, last_query, w). length (stdin w))"
    by simp
qed

declare repl_loop.simps [simp del]

definition run_repl :: "('db, 'v) engine \<Rightarrow> py_env \<Rightarrow> ('db, 'v) world \<Rightarrow> py_exn \<times> ('db, 'v) world"
  where
  \<comment> \<open>lines 224 to 226: \<open>last_query\<close> starts as \<open>None\<close>\<close>
  "run_repl G E w =
    repl_loop G E None
      (emit (Print (ustr ''Enter '' @ quote @ ustr ''import'' @ quote @ ustr '', '' @ quote @
         ustr ''export'' @ quote @ ustr '', or a SQL query.'')) w)"

section \<open>Engines and worlds for closed instances\<close>

definition fixed_engine :: "pystr cursor \<Rightarrow> (unit, pystr) engine" where
  \<comment> \<open>an engine that never fails and answers every statement with the same cursor; its
      values are texts\<close>
  "fixed_engine c =
    \<lparr>db_execute = (\<lambda>d stmt. Inr (d, c)),
     db_executemany = (\<lambda>d stmt vals. Inr d),
     db_commit = (\<lambda>d. Inr d),
     py_str = (\<lambda>v. v)\<rparr>"

definition failing_engine :: "pystr \<Rightarrow> (unit, pystr) engine" where
  \<comment> \<open>an engine that refuses every statement with the same message\<close>
  "failing_engine msg =
    \<lparr>db_execute = (\<lambda>d stmt. Inl (DatabaseError msg)),
     db_executemany = (\<lambda>d stmt vals. Inl (DatabaseError msg)),
     db_commit = (\<lambda>d. Inr d),
     py_str = (\<lambda>v. v)\<rparr>"

definition world0 :: "(pystr \<Rightarrow> pystr list list option) \<Rightarrow> pystr list \<Rightarrow> (unit, pystr) world" where
  \<comment> \<open>the world at the start: the files, the lines that will be typed, nothing done yet\<close>
  "world0 fs lines = \<lparr>db = (), files = fs, stdin = lines, trace = []\<rparr>"


definition select_cursor :: "nat \<Rightarrow> pystr cursor" where
  \<comment> \<open>the cursor of a query that yields \<open>n\<close> rows of one column \<open>a\<close>\<close>
  "select_cursor n =
    \<lparr>cur_description = Some [ustr ''a''],
     cur_rows = replicate n [Some (ustr ''x'')],
     cur_rowcount = - 1\<rparr>"

section \<open>The events of the loops, in closed form\<close>

text \<open>
  What the loop of \<open>execute_sql\<close> pulls from a cursor that holds \<open>rows\<close>: the first 20
  rows, and the end of the cursor when it comes before that.
\<close>

definition preview_fetches :: "'v option list list \<Rightarrow> 'v event list" where
  "preview_fetches rows =
    map (\<lambda>r. FetchOne (Some r)) (take 20 rows) @ (if length rows < 20 then [FetchOne None] else [])"

text \<open>What follows the table: nothing is pulled when no row was shown.\<close>

definition preview_verdict :: "'v option list list \<Rightarrow> 'v event list" where
  "preview_verdict rows =
    (if rows = [] then [Print (ustr ''Query returned zero rows.'')]
     else if 20 < length rows
       then [FetchOne (Some (rows ! 20)), Print (ustr ''Output first 20 rows.'')]
       else [FetchOne None,
             Print (ustr ''Output all '' @ str_nat (length rows) @ ustr '' row(s).'')])"

text \<open>
  The events of \<open>export\<close> from the first pull on: each row is pulled, announced when its
  index is a positive multiple of 10000, and written, before the next is pulled.
\<close>

fun export_events :: "('db, 'v) engine \<Rightarrow> pystr \<Rightarrow> nat \<Rightarrow> 'v option list list \<Rightarrow> 'v event list" where
  "export_events G filename index [] = [FetchOne None]"
| "export_events G filename index (row # cur) =
    FetchOne (Some row) #
    (if index mod 10000 = 0 \<and> 0 < index
     then [Print (ustr ''Exported '' @ str_nat index @ ustr '' rows...'')]
     else []) @
    WriteRow filename (map (csv_field G) row) # export_events G filename (index + 1) cur"



text \<open>
  The states the loop of \<open>run_repl\<close> passes through at its head: \<open>last_query\<close> and the
  world, from a given state on.
\<close>

inductive repl_reaches ::
  "('db, 'v) engine \<Rightarrow> py_env \<Rightarrow> pystr option \<times> ('db, 'v) world \<Rightarrow>
     pystr option \<times> ('db, 'v) world \<Rightarrow> bool"
  for G :: "('db, 'v) engine" and E :: py_env and s :: "pystr option \<times> ('db, 'v) world" where
  start: "repl_reaches G E s s"
| step: "repl_reaches G E s (last_query, w) \<Longrightarrow>
         input (ustr ''> '') w = (Inr query, w1) \<Longrightarrow>
         repl_body G E last_query query w1 = (last_query', w2) \<Longrightarrow>
         repl_reaches G E s (last_query', w2)"

definition mutating_cursor :: "pystr cursor" where
  \<comment> \<open>the cursor of a statement that changed three rows and has no result set\<close>
  "mutating_cursor = \<lparr>cur_description = None, cur_rows = [], cur_rowcount = 3\<rparr>"

section \<open>Properties of ValueCoercer\<close>

lemma bit_length_numeral [simp]:
  "bit_length 0 = 0"
  "bit_length (Suc 0) = 1"
  "bit_length 1 = 1"
  "bit_length (numeral (Num.Bit0 n)) = bit_length (numeral n) + 1"
  "bit_length (numeral (Num.Bit1 n)) = bit_length (numeral n) + 1"
proof -
  show z: "bit_length 0 = 0"
    by (subst bit_length.simps) simp
  show "bit_length (Suc 0) = 1"
    by (subst bit_length.simps) (simp add: z)
  then show "bit_length 1 = 1"
    by simp
  have "numeral (Num.Bit0 n) div (2::nat) = numeral n"
    by (rule numeral_Bit0_div_2)
  then show "bit_length (numeral (Num.Bit0 n)) = bit_length (numeral n) + 1"
    by (subst bit_length.simps) simp
  have "numeral (Num.Bit1 n) div (2::nat) = numeral n"
    by (rule numeral_Bit1_div_2)
  then show "bit_length (numeral (Num.Bit1 n)) = bit_length (numeral n) + 1"
    by (subst bit_length.simps) simp
qed

lemmas scan_defs =
  ustr_def py_int_def py_float_def transform_decimal_and_space_def strip_sign_def
  digits_value_def is_digit_def is_c_space_def parse_decimal_def parse_exponent_def
  parse_inf_or_nan_def ascii_lower_def Let_def

lemmas round_defs =
  py_float_of_int_def round_double_def floor_log2_def round_half_even_def Let_def

lemmas coerce_defs =
  to_db_value_def str_without_currency_def currency_symbols_def

text \<open>The branches of \<open>to_db_value\<close>, one lemma each.\<close>

lemma to_db_value_integer:
  assumes "str' \<noteq> []" and "py_int E (str_without_currency str') = Some v"
    and "- (2 ^ 63) \<le> v" and "v < 2 ^ 63"
  shows "to_db_value E str' = Inr (Integer v)"
  using assms by (simp add: to_db_value_def)

lemma to_db_value_big_integer:
  assumes "str' \<noteq> []" and "py_int E (str_without_currency str') = Some v"
    and "\<not> (- (2 ^ 63) \<le> v \<and> v < 2 ^ 63)"
  shows "to_db_value E str' =
    (case py_float_of_int v of Inl e \<Rightarrow> Inl e | Inr f \<Rightarrow> Inr (Float f))"
  using assms by (auto simp: to_db_value_def)

lemma to_db_value_float:
  assumes "str' \<noteq> []" and "py_int E (str_without_currency str') = None"
    and "py_float E (str_without_currency str') = Some f"
  shows "to_db_value E str' = Inr (Float f)"
  using assms by (simp add: to_db_value_def)

lemma to_db_value_text:
  assumes "str' \<noteq> []" and "py_int E (str_without_currency str') = None"
    and "py_float E (str_without_currency str') = None"
  shows "to_db_value E str' = Inr (Text str')"
  using assms by (simp add: to_db_value_def)

lemma to_db_value_raises:
  assumes "to_db_value E str' = Inl e"
  shows "e = OverflowError \<and>
    (\<exists>v. py_int E (str_without_currency str') = Some v \<and> \<not> (- (2 ^ 63) \<le> v \<and> v < 2 ^ 63) \<and>
         py_float_of_int v = Inl OverflowError)"
  using assms
  by (auto simp: to_db_value_def py_float_of_int_def
      split: if_splits option.splits sum.splits)

text \<open>A one followed by zeros, read as an integer.\<close>

lemma foldl_digits_zeros:
  "foldl (\<lambda>acc c. 10 * acc + (c - 48)) (a::nat) (replicate n 48) = a * 10 ^ n"
  by (induction n arbitrary: a) simp_all

lemma underscores_ok_zeros: "is_digit p \<Longrightarrow> underscores_ok p (replicate n 48)"
  by (induction n arbitrary: p) (simp_all add: is_digit_def)

lemma py_int_one_zeros:
  assumes "n \<le> 639"
  shows "py_int E (49 # replicate n 48) = Some (10 ^ n)"
proof -
  have ok: "underscores_ok 49 (replicate n 48)"
    by (rule underscores_ok_zeros) (simp add: is_digit_def)
  have t: "transform_decimal_and_space E (49 # replicate n 48) = 49 # replicate n 48"
    by (simp add: transform_decimal_and_space_def list_all_iff)
  show ?thesis
    unfolding py_int_def t using assms ok
    by (simp add: is_c_space_def is_digit_def strip_sign_def digits_value_def
        foldl_digits_zeros Let_def)
qed

lemma py_float_of_int_overflow: "py_float_of_int (10 ^ 309) = Inl OverflowError"
  by (simp add: round_defs)

text \<open>
  Where the conversion starts to fail: the integers from \<open>2\<^sup>1\<^sup>0\<^sup>2\<^sup>4 - 2\<^sup>9\<^sup>7\<^sup>0\<close> on round to
  \<open>2\<^sup>1\<^sup>0\<^sup>2\<^sup>4\<close>, the one before to the largest double.
\<close>

lemma py_float_of_int_boundary:
  "py_float_of_int (2 ^ 1024 - 2 ^ 970) = Inl OverflowError"
  "py_float_of_int (2 ^ 1024 - 2 ^ 970 - 1) = Inr (Finite False (2 ^ 53 - 1) 971)"
  "py_float_of_int (- (2 ^ 63) - 1) = Inr (Finite True (2 ^ 52) 11)"
  by (simp_all add: round_defs)

text \<open>
  C1. The claim: \<open>to_db_value\<close> never raises, and an integer outside the signed 64-bit
  range becomes a float. The code converts such an integer with \<open>float(value)\<close> inside a
  \<open>try\<close> that catches \<open>ValueError\<close> only: for the cell made of a one and 309 zeros the
  conversion raises \<open>OverflowError\<close>, which leaves \<open>to_db_value\<close>.
\<close>

theorem to_db_value_overflow_error:
  "to_db_value E (ustr (CHR ''1'' # replicate 309 CHR ''0'')) = Inl OverflowError"
proof -
  have u: "ustr (CHR ''1'' # replicate 309 CHR ''0'') = 49 # replicate 309 48"
    by (simp add: ustr_def)
  have s: "str_without_currency (49 # replicate 309 48) = 49 # replicate 309 48"
    by (simp add: str_without_currency_def currency_symbols_def)
  have i: "py_int E (str_without_currency (49 # replicate 309 48)) = Some (10 ^ 309)"
    unfolding s by (rule py_int_one_zeros) simp
  have r: "\<not> (- (2 ^ 63) \<le> (10::int) ^ 309 \<and> (10::int) ^ 309 < 2 ^ 63)"
    by simp
  have "to_db_value E (49 # replicate 309 48) =
      (case py_float_of_int (10 ^ 309) of Inl e \<Rightarrow> Inl e | Inr f \<Rightarrow> Inr (Float f))"
    using i r by (intro to_db_value_big_integer) simp_all
  then show ?thesis
    unfolding u by (simp only: py_float_of_int_overflow sum.case)
qed

text \<open>
  C2. The listed cells: the empty cell is \<open>Null\<close>, \<open>$100\<close> the integer 100, \<open>2\<^sup>6\<^sup>3\<close> a
  float (exactly \<open>2\<^sup>5\<^sup>2 \<times> 2\<^sup>1\<^sup>1\<close>), \<open>3.14\<close> the double nearest to 3.14 (mantissa
  7070651414971679, exponent \<open>-51\<close>), \<open>abc\<close> itself. And whenever both parses of the
  currency-stripped remainder of a non-empty cell fail, the result is the text of the
  cell as it came, currency symbol included, as for \<open>$abc\<close>.
\<close>

theorem to_db_value_examples:
  "to_db_value E (ustr '''') = Inr Null \<and>
   to_db_value E (ustr ''$100'') = Inr (Integer 100) \<and>
   to_db_value E (ustr ''9223372036854775808'') = Inr (Float (Finite False (2 ^ 52) 11)) \<and>
   to_db_value E (ustr ''3.14'') = Inr (Float (Finite False 7070651414971679 (- 51))) \<and>
   to_db_value E (ustr ''abc'') = Inr (Text (ustr ''abc'')) \<and>
   to_db_value E (ustr ''$abc'') = Inr (Text (ustr ''$abc'')) \<and>
   (\<forall>str'. str' \<noteq> [] \<and> py_int E (str_without_currency str') = None \<and>
       py_float E (str_without_currency str') = None \<longrightarrow>
     to_db_value E str' = Inr (Text str'))"
proof (intro conjI allI impI)
  show "to_db_value E (ustr '''') = Inr Null"
    by (simp add: ustr_def to_db_value_def)
  show "to_db_value E (ustr ''$100'') = Inr (Integer 100)"
    by (simp add: scan_defs coerce_defs)
  show "to_db_value E (ustr ''9223372036854775808'') = Inr (Float (Finite False (2 ^ 52) 11))"
    by (simp add: scan_defs coerce_defs round_defs)
  show "to_db_value E (ustr ''3.14'') = Inr (Float (Finite False 7070651414971679 (- 51)))"
    by (simp add: scan_defs coerce_defs round_defs)
  show "to_db_value E (ustr ''abc'') = Inr (Text (ustr ''abc''))"
    by (simp add: scan_defs coerce_defs)
  show "to_db_value E (ustr ''$abc'') = Inr (Text (ustr ''$abc''))"
    by (simp add: scan_defs coerce_defs)
  show "to_db_value E str' = Inr (Text str')"
    if "str' \<noteq> [] \<and> py_int E (str_without_currency str') = None \<and>
      py_float E (str_without_currency str') = None" for str'
    using that by (simp add: to_db_value_text)
qed

theorem to_db_value_examples_witness:
  "ustr ''$abc'' \<noteq> [] \<and>
   py_int ascii_env (str_without_currency (ustr ''$abc'')) = None \<and>
   py_float ascii_env (str_without_currency (ustr ''$abc'')) = None \<and>
   to_db_value ascii_env (ustr ''$abc'') = Inr (Text (ustr ''$abc''))"
proof -
  have 1: "ustr ''$abc'' \<noteq> []"
    by (simp add: ustr_def)
  have 2: "py_int ascii_env (str_without_currency (ustr ''$abc'')) = None"
    by (simp add: scan_defs coerce_defs)
  have 3: "py_float ascii_env (str_without_currency (ustr ''$abc'')) = None"
    by (simp add: scan_defs coerce_defs)
  from 1 2 3 to_db_value_examples [of ascii_env] show ?thesis
    by blast
qed

text \<open>
  C10. A cell that is exactly one currency symbol is not empty, so it is not \<open>Null\<close>; the
  symbol is stripped, the empty remainder is neither an integer nor a float, and the
  result is the text of the one-character cell.
\<close>

theorem to_db_value_lone_currency_symbol:
  "py_int E [] = None \<and> py_float E [] = None \<and>
   to_db_value E (ustr ''$'') = Inr (Text (ustr ''$'')) \<and>
   to_db_value E [8364] = Inr (Text [8364]) \<and>
   to_db_value E [165] = Inr (Text [165]) \<and>
   to_db_value E [163] = Inr (Text [163]) \<and>
   list_all (\<lambda>c. str_without_currency [c] = [] \<and> to_db_value E [c] = Inr (Text [c]))
     currency_symbols"
  by (simp add: scan_defs coerce_defs)

theorem to_db_value_lone_currency_symbol_witness:
  "to_db_value ascii_env (ustr ''$'') = Inr (Text (ustr ''$''))"
  using to_db_value_lone_currency_symbol [of ascii_env] by blast

section \<open>Properties of ColumnNamer\<close>

lemma find_suffix_props:
  "suffix \<le> find_suffix S b suffix \<and> b @ str_nat (find_suffix S b suffix) |\<notin>| S \<and>
   (\<forall>j. suffix \<le> j \<and> j < find_suffix S b suffix \<longrightarrow> b @ str_nat j |\<in>| S)"
proof (induction S b suffix rule: find_suffix.induct)
  case (1 S b k)
  show ?case
  proof (cases "b @ str_nat k |\<in>| S")
    case True
    then have eq: "find_suffix S b k = find_suffix S b (k + 1)"
      by (subst find_suffix.simps) simp
    from 1 [OF True] have IH: "k + 1 \<le> find_suffix S b (k + 1)"
      "b @ str_nat (find_suffix S b (k + 1)) |\<notin>| S"
      "\<And>j. k + 1 \<le> j \<Longrightarrow> j < find_suffix S b (k + 1) \<Longrightarrow> b @ str_nat j |\<in>| S"
      by auto
    have "b @ str_nat j |\<in>| S" if "k \<le> j" "j < find_suffix S b (k + 1)" for j
    proof (cases "j = k")
      case True
      with \<open>b @ str_nat k |\<in>| S\<close> show ?thesis by simp
    next
      case False
      with that IH(3) [of j] show ?thesis by simp
    qed
    with IH(1,2) show ?thesis
      unfolding eq by simp
  next
    case False
    then have eq: "find_suffix S b k = k"
      by (subst find_suffix.simps) simp
    with False show ?thesis
      by auto
  qed
qed

lemma unique_name_fresh: "unique_name S b |\<notin>| S"
  using find_suffix_props [of 2 S b] by (simp add: unique_name_def)

lemma str_nat_nonempty: "str_nat n \<noteq> []"
  by (subst str_nat.simps) simp

lemma unique_name_nonempty: "b \<noteq> [] \<Longrightarrow> unique_name S b \<noteq> []"
  by (simp add: unique_name_def)

lemma fold_names_state:
  "foldl (name_column E) ([], {||}) row =
    (to_column_names E row, fset_of_list (to_column_names E row))"
proof (induction row rule: rev_induct)
  case Nil
  show ?case by (simp add: to_column_names_def)
next
  case (snoc x xs)
  let ?n = "unique_name (fset_of_list (to_column_names E xs)) (base_name E x)"
  have step: "foldl (name_column E) ([], {||}) (xs @ [x]) =
      (to_column_names E xs @ [?n], finsert ?n (fset_of_list (to_column_names E xs)))"
    by (simp add: snoc name_column_def Let_def)
  then have "to_column_names E (xs @ [x]) = to_column_names E xs @ [?n]"
    by (simp only: to_column_names_def [of E "xs @ [x]"] fst_conv)
  with step show ?case
    by simp
qed

lemma to_column_names_snoc:
  "to_column_names E (row @ [x]) =
    to_column_names E row @
      [unique_name (fset_of_list (to_column_names E row)) (base_name E x)]"
proof -
  have "to_column_names E (row @ [x]) =
      fst (name_column E (foldl (name_column E) ([], {||}) row) x)"
    by (simp add: to_column_names_def)
  then show ?thesis
    by (simp add: fold_names_state name_column_def Let_def)
qed

lemma to_column_names_Nil: "to_column_names E [] = []"
  by (simp add: to_column_names_def)

lemma length_to_column_names: "length (to_column_names E row) = length row"
  by (induction row rule: rev_induct) (simp_all add: to_column_names_Nil to_column_names_snoc)

lemma distinct_to_column_names: "distinct (to_column_names E row)"
proof (induction row rule: rev_induct)
  case Nil
  show ?case by (simp add: to_column_names_Nil)
next
  case (snoc x xs)
  have "unique_name (fset_of_list (to_column_names E xs)) (base_name E x)
      \<notin> set (to_column_names E xs)"
    using unique_name_fresh [of "fset_of_list (to_column_names E xs)" "base_name E x"]
    by (simp add: fset_of_list.rep_eq)
  with snoc show ?case
    by (simp add: to_column_names_snoc)
qed

lemma to_column_names_prefix:
  "take (length xs) (to_column_names E (xs @ ys)) = to_column_names E xs"
proof (induction ys rule: rev_induct)
  case Nil
  show ?case by (simp add: length_to_column_names)
next
  case (snoc y ys)
  have "to_column_names E (xs @ ys @ [y]) = to_column_names E ((xs @ ys) @ [y])"
    by simp
  also have "\<dots> = to_column_names E (xs @ ys) @
      [unique_name (fset_of_list (to_column_names E (xs @ ys))) (base_name E y)]"
    by (rule to_column_names_snoc)
  finally show ?case
    using snoc by (simp add: length_to_column_names)
qed

lemma to_column_names_take:
  "take i (to_column_names E row) = to_column_names E (take i row)"
proof (cases "i \<le> length row")
  case True
  then have "take (length (take i row)) (to_column_names E (take i row @ drop i row)) =
      to_column_names E (take i row)"
    by (intro to_column_names_prefix)
  with True show ?thesis by simp
next
  case False
  then show ?thesis by (simp add: length_to_column_names)
qed

lemma to_column_names_nth:
  assumes "i < length row"
  shows "to_column_names E row ! i =
    unique_name (fset_of_list (take i (to_column_names E row))) (base_name E (row ! i))"
proof -
  let ?n = "unique_name (fset_of_list (to_column_names E (take i row))) (base_name E (row ! i))"
  have "take (Suc i) (to_column_names E row) = to_column_names E (take i row @ [row ! i])"
    using assms by (simp add: to_column_names_take take_Suc_conv_app_nth)
  also have "\<dots> = to_column_names E (take i row) @ [?n]"
    by (rule to_column_names_snoc)
  finally have t: "take (Suc i) (to_column_names E row) = to_column_names E (take i row) @ [?n]" .
  have "length (to_column_names E (take i row)) = i"
    using assms by (simp add: length_to_column_names)
  then have "(to_column_names E (take i row) @ [?n]) ! i = ?n"
    by (simp add: nth_append)
  with t have "take (Suc i) (to_column_names E row) ! i = ?n"
    by simp
  moreover have "take (Suc i) (to_column_names E row) ! i = to_column_names E row ! i"
    by simp
  ultimately show ?thesis
    by (simp add: to_column_names_take)
qed


lemma base_in_names:
  assumes "j < length row"
  shows "base_name E (row ! j) \<in> set (take (Suc j) (to_column_names E row))"
proof -
  let ?out = "to_column_names E row"
  let ?b = "base_name E (row ! j)"
  have len: "j < length ?out"
    using assms by (simp add: length_to_column_names)
  have split: "take (Suc j) ?out = take j ?out @ [?out ! j]"
    using len by (rule take_Suc_conv_app_nth)
  show ?thesis
  proof (cases "?b \<in> set (take j ?out)")
    case True
    then show ?thesis by (simp add: split)
  next
    case False
    then have "?out ! j = ?b"
      using to_column_names_nth [OF assms, of E]
      by (simp add: unique_name_def fset_of_list.rep_eq)
    then show ?thesis by (simp add: split)
  qed
qed

lemma lower_nonempty:
  assumes "\<forall>c. lower_tbl E c \<noteq> []" and "s \<noteq> []"
  shows "lower E s \<noteq> []"
  using assms by (cases s) (simp_all add: lower_def lower_char_def)

lemma sub_underscore_runs_nonempty: "s \<noteq> [] \<Longrightarrow> sub_underscore_runs False s \<noteq> []"
  by (cases s) simp_all

lemma base_name_nonempty:
  assumes "\<forall>c. lower_tbl E c \<noteq> []" and "s \<noteq> []"
  shows "base_name E s \<noteq> []"
  using lower_nonempty [OF assms]
  by (simp add: base_name_def sub_underscore_runs_nonempty sub_other_chars_def)

lemma drop_repeated_run:
  "map snd (filter (\<lambda>(p, c). \<not> (p = 95 \<and> c = 95)) (zip (95 # s) s)) =
   map snd (filter (\<lambda>(p, c). \<not> (p = 95 \<and> c = 95))
     (zip (95 # dropWhile (\<lambda>x. x = 95) s) (dropWhile (\<lambda>x. x = 95) s)))"
  by (induction s) simp_all

lemma sub_underscore_runs_filter:
  "(b \<longleftrightarrow> p = 95) \<Longrightarrow> sub_underscore_runs b s =
    map snd (filter (\<lambda>(p, c). \<not> (p = 95 \<and> c = (95::nat))) (zip (p # s) s))"
proof (induction b s arbitrary: p rule: sub_underscore_runs.induct)
  case (1 b)
  show ?case by simp
next
  case (2 b c cs)
  show ?case
  proof (cases "b \<and> c = 95")
    case True
    with 2(1) [of 95] have "sub_underscore_runs True (dropWhile (\<lambda>x. x = 95) cs) =
      map snd (filter (\<lambda>(p, c). \<not> (p = 95 \<and> c = 95))
        (zip (95 # dropWhile (\<lambda>x. x = 95) cs) (dropWhile (\<lambda>x. x = 95) cs)))"
      by simp
    with True 2(3) drop_repeated_run [of cs] show ?thesis
      by simp
  next
    case False
    with 2(2) [of c] have "sub_underscore_runs (c = 95) cs =
      map snd (filter (\<lambda>(p, c). \<not> (p = 95 \<and> c = 95)) (zip (c # cs) cs))"
      by simp
    with False 2(3) show ?thesis
      by auto
  qed
qed

lemma sub_underscore_runs_eq: "sub_underscore_runs False s = drop_repeated_underscores s"
  unfolding drop_repeated_underscores_def
  by (rule sub_underscore_runs_filter) simp

lemma no_double_aux:
  "\<not> has_double_underscore (sub_underscore_runs b s) \<and>
   (b \<longrightarrow> (case sub_underscore_runs b s of [] \<Rightarrow> True | x # _ \<Rightarrow> x \<noteq> 95))"
proof (induction b s rule: sub_underscore_runs.induct)
  case (1 b)
  show ?case by simp
next
  case (2 b c cs)
  show ?case
  proof (cases "b \<and> c = 95")
    case True
    with 2(1) show ?thesis by simp
  next
    case False
    with 2(2) show ?thesis
      by (cases "sub_underscore_runs (c = 95) cs") auto
  qed
qed

lemmas name_defs =
  base_name_def lower_def lower_char_def ascii_lower_def sub_other_chars_def is_name_char_def
  is_digit_def ustr_def

text \<open>
  C4. The names are parallel to the header row: as many as the headers, the \<open>i\<close>-th made
  from the \<open>i\<close>-th header and the names before it. They are pairwise distinct. When no
  header is empty (and no code point lowercases to the empty string) no name is empty.
  When the normalized base name of a column repeats that of an earlier column, the name
  is the base name followed by the decimal digits of the least \<open>k \<ge> 2\<close> for which the
  result is not yet taken. \<open>["Total", "total"]\<close> gives \<open>["total", "total2"]\<close>.
\<close>

theorem to_column_names_parallel_unique:
  "length (to_column_names E row) = length row \<and>
   distinct (to_column_names E row) \<and>
   ((\<forall>c. lower_tbl E c \<noteq> []) \<and> [] \<notin> set row \<longrightarrow> [] \<notin> set (to_column_names E row)) \<and>
   (\<forall>i<length row.
      to_column_names E row ! i =
        unique_name (fset_of_list (take i (to_column_names E row))) (base_name E (row ! i))) \<and>
   (\<forall>i<length row.
      (\<exists>j<i. base_name E (row ! j) = base_name E (row ! i)) \<longrightarrow>
      (\<exists>k\<ge>2.
         to_column_names E row ! i = base_name E (row ! i) @ str_nat k \<and>
         (\<forall>m. 2 \<le> m \<and> m < k \<longrightarrow>
            base_name E (row ! i) @ str_nat m \<in> set (take i (to_column_names E row))))) \<and>
   to_column_names E [ustr ''Total'', ustr ''total''] = [ustr ''total'', ustr ''total2'']"
proof (intro conjI allI impI)
  let ?out = "to_column_names E row"
  show "length ?out = length row"
    by (rule length_to_column_names)
  show "distinct ?out"
    by (rule distinct_to_column_names)
  show "[] \<notin> set ?out" if h: "(\<forall>c. lower_tbl E c \<noteq> []) \<and> [] \<notin> set row"
  proof
    assume "[] \<in> set ?out"
    then obtain i where i: "i < length row" and e: "?out ! i = []"
      by (auto simp: in_set_conv_nth length_to_column_names)
    from h i have "row ! i \<noteq> []"
      by (metis nth_mem)
    with h have "base_name E (row ! i) \<noteq> []"
      by (intro base_name_nonempty) simp_all
    then have "unique_name (fset_of_list (take i ?out)) (base_name E (row ! i)) \<noteq> []"
      by (rule unique_name_nonempty)
    with e to_column_names_nth [OF i, of E] show False
      by simp
  qed
  show "?out ! i = unique_name (fset_of_list (take i ?out)) (base_name E (row ! i))"
    if "i < length row" for i
    using that by (rule to_column_names_nth)
  show "\<exists>k\<ge>2. ?out ! i = base_name E (row ! i) @ str_nat k \<and>
      (\<forall>m. 2 \<le> m \<and> m < k \<longrightarrow> base_name E (row ! i) @ str_nat m \<in> set (take i ?out))"
    if i: "i < length row" and rep: "\<exists>j<i. base_name E (row ! j) = base_name E (row ! i)" for i
  proof -
    let ?b = "base_name E (row ! i)"
    let ?S = "fset_of_list (take i ?out)"
    from rep obtain j where j: "j < i" and eq: "base_name E (row ! j) = ?b"
      by blast
    from j i have "base_name E (row ! j) \<in> set (take (Suc j) ?out)"
      by (intro base_in_names) simp
    moreover have "set (take (Suc j) ?out) \<subseteq> set (take i ?out)"
      using j by (intro set_take_subset_set_take) simp
    ultimately have mem: "?b |\<in>| ?S"
      using eq by (auto simp: fset_of_list.rep_eq)
    let ?k = "find_suffix ?S ?b 2"
    have "?out ! i = ?b @ str_nat ?k"
      using to_column_names_nth [OF i, of E] mem by (simp add: unique_name_def)
    moreover have "2 \<le> ?k"
      using find_suffix_props [of 2 ?S ?b] by simp
    moreover have "\<forall>m. 2 \<le> m \<and> m < ?k \<longrightarrow> ?b @ str_nat m \<in> set (take i ?out)"
      using find_suffix_props [of 2 ?S ?b] by (simp add: fset_of_list.rep_eq)
    ultimately show ?thesis
      by blast
  qed
  show "to_column_names E [ustr ''Total'', ustr ''total''] = [ustr ''total'', ustr ''total2'']"
    by (simp add: to_column_names_def name_column_def unique_name_def name_defs
        find_suffix.simps str_nat.simps Let_def)
qed

theorem to_column_names_parallel_unique_witness:
  "(\<forall>c. lower_tbl ascii_env c \<noteq> []) \<and>
   [] \<notin> set [ustr ''Total'', ustr ''total''] \<and>
   [] \<notin> set (to_column_names ascii_env [ustr ''Total'', ustr ''total'']) \<and>
   (1::nat) < length [ustr ''Total'', ustr ''total''] \<and>
   base_name ascii_env ([ustr ''Total'', ustr ''total''] ! 0) =
     base_name ascii_env ([ustr ''Total'', ustr ''total''] ! 1) \<and>
   to_column_names ascii_env [ustr ''Total'', ustr ''total''] ! 1 =
     base_name ascii_env ([ustr ''Total'', ustr ''total''] ! 1) @ str_nat 2"
proof -
  have 1: "\<forall>c. lower_tbl ascii_env c \<noteq> []"
    by (simp add: ascii_env_def)
  have 2: "[] \<notin> set [ustr ''Total'', ustr ''total'']"
    by (simp add: ustr_def)
  have 3: "base_name ascii_env ([ustr ''Total'', ustr ''total''] ! 0) =
      base_name ascii_env ([ustr ''Total'', ustr ''total''] ! 1)"
    by (simp add: name_defs)
  have 4: "base_name ascii_env ([ustr ''Total'', ustr ''total''] ! 1) @ str_nat 2 =
      ustr ''total2''"
    by (simp add: name_defs str_nat.simps)
  note t = to_column_names_parallel_unique [of ascii_env "[ustr ''Total'', ustr ''total'']"]
  from t 1 2 have "[] \<notin> set (to_column_names ascii_env [ustr ''Total'', ustr ''total''])"
    by blast
  moreover from t have "to_column_names ascii_env [ustr ''Total'', ustr ''total''] ! 1 =
      ustr ''total2''"
    by simp
  ultimately show ?thesis
    using 1 2 3 4 by simp
qed

text \<open>
  C5, as the claim has it: a header that the first substitution turns into \<open>__a__\<close> keeps
  its leading and its trailing double underscore. It does not: the second substitution
  deletes every underscore that follows an underscore, wherever the run stands.
\<close>

theorem base_name_outer_runs_collapsed:
  "sub_other_chars (lower ascii_env (ustr ''  a  '')) = ustr ''__a__'' \<and>
   base_name ascii_env (ustr ''  a  '') = ustr ''_a_'' \<and>
   base_name ascii_env (ustr ''  a  '') \<noteq> ustr ''__a__'' \<and>
   base_name ascii_env (ustr ''__a__'') = ustr ''_a_''"
  by (simp add: name_defs)

text \<open>
  C5, amended. The base name of a header is its lowercase form, with every character
  outside \<^verbatim>\<open>[a-z0-9_]\<close> replaced by an underscore (one for one), and then with every
  underscore deleted that immediately follows an underscore: every run of underscores,
  a leading or trailing one included, is left as a single underscore, and none is
  stripped altogether. \<open>__a__\<close> becomes \<open>_a_\<close>.
\<close>

theorem base_name_normalizes:
  "base_name E s = drop_repeated_underscores (sub_other_chars (lower E s)) \<and>
   (list_all (\<lambda>c. c < 128) s \<longrightarrow> lower E s = map ascii_lower s) \<and>
   length (sub_other_chars t) = length t \<and>
   (\<forall>i<length t. sub_other_chars t ! i = (if is_name_char (t ! i) then t ! i else 95)) \<and>
   \<not> has_double_underscore (base_name E s) \<and>
   base_name E (ustr ''__a__'') = ustr ''_a_''"
proof (intro conjI allI impI)
  show "base_name E s = drop_repeated_underscores (sub_other_chars (lower E s))"
    by (simp add: base_name_def sub_underscore_runs_eq)
  show "lower E s = map ascii_lower s" if "list_all (\<lambda>c. c < 128) s"
    using that by (induction s) (simp_all add: lower_def lower_char_def)
  show "length (sub_other_chars t) = length t"
    by (simp add: sub_other_chars_def)
  show "sub_other_chars t ! i = (if is_name_char (t ! i) then t ! i else 95)"
    if "i < length t" for i
    using that by (simp add: sub_other_chars_def)
  show "\<not> has_double_underscore (base_name E s)"
    using no_double_aux [of False] by (simp add: base_name_def)
  show "base_name E (ustr ''__a__'') = ustr ''_a_''"
    by (simp add: name_defs)
qed

theorem base_name_normalizes_witness:
  "list_all (\<lambda>c. c < 128) (ustr ''A b'') \<and>
   lower ascii_env (ustr ''A b'') = ustr ''a b'' \<and>
   (1::nat) < length (ustr ''a b'') \<and>
   sub_other_chars (ustr ''a b'') ! 1 = 95 \<and>
   base_name ascii_env (ustr ''A b'') = ustr ''a_b''"
proof -
  have 1: "list_all (\<lambda>c. c < 128) (ustr ''A b'')"
    by (simp add: ustr_def)
  have 2: "(1::nat) < length (ustr ''a b'')"
    by (simp add: ustr_def)
  note t = base_name_normalizes [of ascii_env "ustr ''A b''" "ustr ''a b''"]
  from t 1 have "lower ascii_env (ustr ''A b'') = map ascii_lower (ustr ''A b'')"
    by blast
  then have 3: "lower ascii_env (ustr ''A b'') = ustr ''a b''"
    by (simp add: ustr_def ascii_lower_def)
  from t 2 have "sub_other_chars (ustr ''a b'') ! 1 =
      (if is_name_char (ustr ''a b'' ! 1) then ustr ''a b'' ! 1 else 95)"
    by blast
  then have 4: "sub_other_chars (ustr ''a b'') ! 1 = 95"
    by (simp add: ustr_def is_name_char_def is_digit_def)
  have 5: "base_name ascii_env (ustr ''A b'') = ustr ''a_b''"
    by (simp add: name_defs)
  from 1 2 3 4 5 show ?thesis
    by simp
qed

section \<open>Properties of the commands\<close>

subsection \<open>Single steps\<close>

lemma then_do_Inr: "m w = (Inr a, w') \<Longrightarrow> then_do m f w = f a w'"
  by (simp add: then_do_def)

lemma then_do_Inl: "m w = (Inl e, w') \<Longrightarrow> then_do m f w = (Inl e, w')"
  by (simp add: then_do_def)

lemma input_Cons: "stdin w = l # ls \<Longrightarrow> input p w = (Inr l, (emit (Prompt p) w)\<lparr>stdin := ls\<rparr>)"
  by (simp add: input_def)

lemma index_of_first:
  "x \<in> set xs \<Longrightarrow>
    index_of x xs < length xs \<and> xs ! index_of x xs = x \<and> (\<forall>j<index_of x xs. xs ! j \<noteq> x)"
proof (induction xs)
  case Nil
  then show ?case by simp
next
  case (Cons y ys)
  show ?case
  proof (cases "y = x")
    case True
    then show ?thesis by simp
  next
    case False
    with Cons have "index_of x ys < length ys \<and> ys ! index_of x ys = x \<and>
        (\<forall>j<index_of x ys. ys ! j \<noteq> x)"
      by simp
    with False show ?thesis
      by (auto simp: nth_Cons split: nat.splits)
  qed
qed

lemma import_empty_header:
  assumes "stdin w = filename # rest" and "files w filename = Some (header_row # data)"
    and "[] \<in> set header_row"
  shows "import' G E w =
    (Inl (ValueError (no_header_message header_row)),
     (emit (Prompt (ustr ''Enter a CSV file to import: '')) w)\<lparr>stdin := rest\<rparr>)"
  using assms
  by (simp add: import'_def then_do_def input_def open_read_def next_row_def return_def
      raise_def emit_def)

lemma repl_export_none:
  "repl_body G E None (ustr ''export'') w =
    (None, emit (Print (ustr ''You must enter a SQL query before exporting.'')) w)"
  by (simp add: repl_body_def repl_command_def then_do_def print_def return_def ustr_def)

lemma repl_body_changes:
  assumes "repl_body G E last_query query w = (last_query', w')"
    and "last_query' \<noteq> last_query"
  shows "query \<noteq> ustr ''import'' \<and> query \<noteq> ustr ''export'' \<and>
    execute_sql G query w = (Inr True, w') \<and> last_query' = Some query"
proof (cases "repl_command G E last_query query w")
  case (Pair r w1)
  show ?thesis
  proof (cases r)
    case (Inl e)
    with Pair assms show ?thesis
      by (simp add: repl_body_def)
  next
    case (Inr lq)
    with Pair assms have lq: "lq = last_query'" "w1 = w'"
      by (simp_all add: repl_body_def)
    from Pair Inr lq assms(2) show ?thesis
      by (auto simp: repl_command_def then_do_def return_def print_def
          split: if_splits option.splits prod.splits sum.splits)
  qed
qed

lemma repl_statement_fails:
  assumes "query \<noteq> ustr ''import''" and "query \<noteq> ustr ''export''"
    and "execute_sql G query w = (Inl e, w')"
  shows "repl_body G E last_query query w =
    (last_query, emit (Print (ustr ''Error: '' @ exn_message e)) w')"
  using assms by (simp add: repl_body_def repl_command_def then_do_def)

lemma repl_statement_mutates:
  assumes "query \<noteq> ustr ''import''" and "query \<noteq> ustr ''export''"
    and "execute_sql G query w = (Inr False, w')"
  shows "repl_body G E last_query query w = (last_query, w')"
  using assms by (simp add: repl_body_def repl_command_def then_do_def return_def)

lemma repl_statement_rows:
  assumes "query \<noteq> ustr ''import''" and "query \<noteq> ustr ''export''"
    and "execute_sql G query w = (Inr True, w')"
  shows "repl_body G E last_query query w = (Some query, w')"
  using assms by (simp add: repl_body_def repl_command_def then_do_def return_def)

subsection \<open>The preview of \<open>execute_sql\<close>\<close>

lemma fetch_rows_eq:
  "fetch_rows G n cur rows w =
    (Inr (rows @ map (map (cell_text G)) (take n cur), drop n cur),
     w\<lparr>trace := trace w @ map (\<lambda>r. FetchOne (Some r)) (take n cur) @
        (if length cur < n then [FetchOne None] else [])\<rparr>)"
proof (induction n arbitrary: cur rows w)
  case 0
  show ?case by simp
next
  case (Suc n)
  show ?case
  proof (cases cur)
    case Nil
    then show ?thesis
      by (simp add: then_do_def fetchone_def return_def emit_def)
  next
    case (Cons r rs)
    then show ?thesis
      by (simp add: then_do_def fetchone_def emit_def Suc)
  qed
qed

lemma print_lines_eq: "print_lines ls w = (Inr (), w\<lparr>trace := trace w @ map Print ls\<rparr>)"
  by (induction ls arbitrary: w) (simp_all add: then_do_def print_def emit_def)

lemma widen_all_ok:
  "\<forall>r \<in> set table. length r \<le> length widths \<Longrightarrow>
    \<exists>widths'. widen_all widths table = Inr widths' \<and> length widths' = length widths"
proof (induction table arbitrary: widths)
  case Nil
  show ?case by simp
next
  case (Cons row table)
  let ?w = "map2 (\<lambda>width val. max width (length val)) (take (length row) widths) row
      @ drop (length row) widths"
  from Cons.prems have le: "length row \<le> length widths"
    by simp
  then have w: "widen widths row = Inr ?w" and l: "length ?w = length widths"
    by (simp_all add: widen_def)
  from Cons.prems l have "\<forall>r \<in> set table. length r \<le> length ?w"
    by simp
  from Cons.IH [OF this] w l show ?case
    by simp
qed

lemma print_table_ok:
  assumes "\<forall>r \<in> set rows. length r \<le> length header"
  shows "\<exists>widths. length widths = length header \<and>
    widen_all (replicate (length header) 0) (header # rows) = Inr widths \<and>
    (\<forall>w :: ('db, 'v) world. print_table (header # rows) w =
      (Inr (), w\<lparr>trace := trace w @ map (\<lambda>l. Print (format_row widths l)) (header # rows)\<rparr>))"
proof -
  from assms have "\<forall>r \<in> set (header # rows). length r \<le> length (replicate (length header) (0::nat))"
    by simp
  from widen_all_ok [OF this] obtain widths where
    w: "widen_all (replicate (length header) 0) (header # rows) = Inr widths"
    and l: "length widths = length header"
    by auto
  have "print_table (header # rows) w =
      (Inr (), w\<lparr>trace := trace w @ map (\<lambda>l. Print (format_row widths l)) (header # rows)\<rparr>)"
    for w :: "('db, 'v) world"
    using w by (simp add: print_table_def print_lines_eq comp_def del: widen_all.simps)
  with w l show ?thesis
    by blast
qed

lemma execute_sql_rows:
  assumes ex: "db_execute G (db w) query = Inr (d, c)" and cm: "db_commit G d = Inr d'"
    and desc: "cur_description c = Some header"
    and wf: "\<forall>r \<in> set (take 20 (cur_rows c)). length r \<le> length header"
  shows "\<exists>widths. 
    widen_all (replicate (length header) 0)
      (header # map (map (cell_text G)) (take 20 (cur_rows c))) = Inr widths \<and>
    execute_sql G query w =
      (Inr True,
       w\<lparr>db := d',
         trace := trace w @ [Execute query, Commit] @ preview_fetches (cur_rows c) @
           map (\<lambda>l. Print (format_row widths l))
             (header # map (map (cell_text G)) (take 20 (cur_rows c))) @
           preview_verdict (cur_rows c)\<rparr>)"
proof -
  let ?rows = "cur_rows c"
  let ?shown = "map (map (cell_text G)) (take 20 ?rows)"
  from wf have "\<forall>r \<in> set ?shown. length r \<le> length header"
    by simp
  from print_table_ok [OF this, where ?'db = 'a and ?'v = 'b] obtain widths where
    w: "widen_all (replicate (length header) 0) (header # ?shown) = Inr widths"
    and pt: "\<And>w :: ('a, 'b) world. print_table (header # ?shown) w =
      (Inr (), w\<lparr>trace := trace w @ map (\<lambda>l. Print (format_row widths l)) (header # ?shown)\<rparr>)"
    by blast
  have nth: "drop 20 ?rows = ?rows ! 20 # drop 21 ?rows" if "20 < length ?rows"
    using Cons_nth_drop_Suc [OF that, symmetric] by simp
  have "execute_sql G query w =
      (Inr True,
       w\<lparr>db := d',
         trace := trace w @ [Execute query, Commit] @ preview_fetches ?rows @
           map (\<lambda>l. Print (format_row widths l)) (header # ?shown) @ preview_verdict ?rows\<rparr>)"
  proof (cases "?rows = []")
    case True
    with ex cm desc pt show ?thesis
      by (simp add: execute_sql_def then_do_def execute_def commit_def emit_def fetch_rows_eq
          print_def return_def preview_fetches_def preview_verdict_def)
  next
    case False
    show ?thesis
    proof (cases "20 < length ?rows")
      case True
      with False ex cm desc pt nth show ?thesis
        by (simp add: execute_sql_def then_do_def execute_def commit_def emit_def fetch_rows_eq
            print_def return_def fetchone_def preview_fetches_def preview_verdict_def)
    next
      case F: False
      then have "drop 20 ?rows = []"
        by simp
      with F False ex cm desc pt show ?thesis
        by (simp add: execute_sql_def then_do_def execute_def commit_def emit_def fetch_rows_eq
            print_def return_def fetchone_def preview_fetches_def preview_verdict_def)
    qed
  qed
  with w show ?thesis
    by blast
qed

subsection \<open>The loops of \<open>export\<close> and \<open>import_\<close>\<close>

lemma export_loop_step:
  "\<exists>w2. export_loop G filename index bound (row # cur) w =
      export_loop G filename (index + 1) (Some index) cur w2 \<and>
    trace w2 = trace w @ FetchOne (Some row) #
      (if index mod 10000 = 0 \<and> 0 < index
       then [Print (ustr ''Exported '' @ str_nat index @ ustr '' rows...'')]
       else []) @ [WriteRow filename (map (csv_field G) row)] \<and>
    db w2 = db w \<and> stdin w2 = stdin w"
proof -
  define w2 where "w2 =
    snd (then_do (if index mod 10000 = 0 \<and> 0 < index
                  then print (ustr ''Exported '' @ str_nat index @ ustr '' rows...'')
                  else return ())
           (\<lambda>_. writerow filename (map (csv_field G) row))
           (emit (FetchOne (Some row)) w))"
  have "export_loop G filename index bound (row # cur) w =
      export_loop G filename (index + 1) (Some index) cur w2"
    unfolding w2_def by (simp add: then_do_def print_def return_def writerow_def)
  moreover have "trace w2 = trace w @ FetchOne (Some row) #
      (if index mod 10000 = 0 \<and> 0 < index
       then [Print (ustr ''Exported '' @ str_nat index @ ustr '' rows...'')]
       else []) @ [WriteRow filename (map (csv_field G) row)]"
    unfolding w2_def by (simp add: then_do_def print_def return_def writerow_def emit_def)
  moreover have "db w2 = db w" "stdin w2 = stdin w"
    unfolding w2_def by (simp_all add: then_do_def print_def return_def writerow_def emit_def)
  ultimately show ?thesis
    by blast
qed

lemma export_loop_eq:
  "fst (export_loop G filename index bound cur w) =
     Inr (if cur = [] then bound else Some (index + length cur - 1)) \<and>
   trace (snd (export_loop G filename index bound cur w)) =
     trace w @ export_events G filename index cur \<and>
   db (snd (export_loop G filename index bound cur w)) = db w \<and>
   stdin (snd (export_loop G filename index bound cur w)) = stdin w"
proof (induction cur arbitrary: index bound w)
  case Nil
  show ?case by (simp add: emit_def)
next
  case (Cons row cur)
  from export_loop_step [of G filename index bound row cur w] obtain w2 where
    step: "export_loop G filename index bound (row # cur) w =
      export_loop G filename (index + 1) (Some index) cur w2"
    and w2: "trace w2 = trace w @ FetchOne (Some row) #
      (if index mod 10000 = 0 \<and> 0 < index
       then [Print (ustr ''Exported '' @ str_nat index @ ustr '' rows...'')]
       else []) @ [WriteRow filename (map (csv_field G) row)]"
      "db w2 = db w" "stdin w2 = stdin w"
    by blast
  from Cons [of "index + 1" "Some index" w2] w2 show ?case
    unfolding step by (cases cur) simp_all
qed






section \<open>The claims about the commands\<close>

lemma export_loop_eqD:
  assumes "export_loop G filename index bound cur w = (r, w')"
  shows "r = Inr (if cur = [] then bound else Some (index + length cur - 1)) \<and>
    trace w' = trace w @ export_events G filename index cur \<and> db w' = db w \<and> stdin w' = stdin w"
  using export_loop_eq [of G filename index bound cur w] assms by simp

text \<open>
  C3. The claim: \<open>export\<close> writes each row as it is pulled, prints a progress message
  every 10000 rows, and reports the total at the end, also when the query yields no row.
  For a query that yields rows it does: every row is written before the next is pulled,
  the row with index \<open>10000 k\<close> is announced (\<open>k > 0\<close>), and the last line gives the number
  of rows. For a query that yields no row the variable \<open>index\<close> of line 133 is never
  assigned, and line 137 raises \<open>UnboundLocalError\<close> after the header row is written:
  no total is reported.
\<close>

theorem export_reports_total:
  assumes "stdin w = filename # rest" and "db_execute G (db w) query = Inr (d, c)"
    and "cur_description c = Some header"
  shows "fst (export G query w) =
      (if cur_rows c = [] then Inl UnboundLocalError else Inr ()) \<and>
    trace (snd (export G query w)) =
      trace w @
      [Prompt (ustr ''Enter a CSV file to store the results of the most recent SQL query in: ''),
       Execute query, OpenWrite filename, WriteRow filename header] @
      export_events G filename 0 (cur_rows c) @
      (if cur_rows c = [] then []
       else [Print (ustr ''Exported '' @ str_nat (length (cur_rows c)) @ ustr '' row(s).'')])"
proof -
  let ?w4 = "snd (writerow filename header (snd (open_write filename
      (snd (execute G query (snd (input
        (ustr ''Enter a CSV file to store the results of the most recent SQL query in: '')
        w)))))))"
  obtain r w5 where loop: "export_loop G filename 0 None (cur_rows c) ?w4 = (r, w5)"
    by (cases "export_loop G filename 0 None (cur_rows c) ?w4")
  note l = export_loop_eqD [OF loop]
  have t4: "trace ?w4 = trace w @
      [Prompt (ustr ''Enter a CSV file to store the results of the most recent SQL query in: ''),
       Execute query, OpenWrite filename, WriteRow filename header]"
    using assms
    by (simp add: input_def execute_def open_write_def writerow_def emit_def)
  have e: "export G query w =
      (case r of Inl e \<Rightarrow> (Inl e, w5)
       | Inr None \<Rightarrow> (Inl UnboundLocalError, w5)
       | Inr (Some index) \<Rightarrow>
           (Inr (), emit (Print (ustr ''Exported '' @ str_nat (index + 1) @ ustr '' row(s).'')) w5))"
    using assms loop
    by (simp add: export_def then_do_def input_def execute_def open_write_def writerow_def
        raise_def print_def emit_def split: sum.splits option.splits)
  show ?thesis
  proof (cases "cur_rows c = []")
    case True
    with l e t4 show ?thesis
      by simp
  next
    case False
    then have "length (cur_rows c) - 1 + 1 = length (cur_rows c)"
      by (cases "cur_rows c") simp_all
    with False l e t4 show ?thesis
      by (simp add: emit_def)
  qed
qed

theorem export_reports_total_witness:
  "stdin (world0 Map.empty [ustr ''out.csv'']) = ustr ''out.csv'' # [] \<and>
   db_execute (fixed_engine (select_cursor 0)) (db (world0 Map.empty [ustr ''out.csv'']))
     (ustr ''SELECT a FROM t'') = Inr ((), select_cursor 0) \<and>
   cur_description (select_cursor 0) = Some [ustr ''a''] \<and>
   cur_rows (select_cursor 0) = [] \<and>
   fst (export (fixed_engine (select_cursor 0)) (ustr ''SELECT a FROM t'')
     (world0 Map.empty [ustr ''out.csv''])) = Inl UnboundLocalError"
proof -
  have 1: "stdin (world0 Map.empty [ustr ''out.csv'']) = ustr ''out.csv'' # []"
    by (simp add: world0_def)
  have 2: "db_execute (fixed_engine (select_cursor 0)) (db (world0 Map.empty [ustr ''out.csv'']))
      (ustr ''SELECT a FROM t'') = Inr ((), select_cursor 0)"
    by (simp add: fixed_engine_def)
  have 3: "cur_description (select_cursor 0) = Some [ustr ''a'']"
    by (simp add: select_cursor_def)
  have 4: "cur_rows (select_cursor 0) = []"
    by (simp add: select_cursor_def)
  from export_reports_total [OF 1 2 3] 4 1 2 3 show ?thesis
    by simp
qed

text \<open>
  C6, as the claim has it: after printing, every row-producing query is pulled once
  more. A query that yields no row is not: the only pull is the first pass of the loop
  of line 181, before the header is printed, and line 196 skips the pull of line 197.
\<close>

theorem execute_sql_zero_rows_no_pull:
  "execute_sql (fixed_engine (select_cursor 0)) (ustr ''SELECT a FROM t'')
     (world0 Map.empty []) =
   (Inr True,
    \<lparr>db = (), files = Map.empty, stdin = [],
     trace = [Execute (ustr ''SELECT a FROM t''), Commit, FetchOne None,
              Print (ustr ''| a |''), Print (ustr ''Query returned zero rows.'')]\<rparr>)"
  by (simp add: execute_sql_def then_do_def execute_def commit_def fixed_engine_def
      select_cursor_def world0_def fetch_rows_eq print_def return_def print_table_def
      widen_def print_lines_eq format_row_def emit_def ustr_def)

text \<open>
  C6, amended. For a row-producing query whose statement and commit succeed,
  \<open>execute_sql\<close> pulls at most 20 rows, prints the header and those rows, and then:
  when at least one row was shown it pulls once more, and says that the first 20 rows
  were output when that pull yields a row, the exact number of rows otherwise; when no
  row was shown it pulls nothing more and says that the query returned zero rows. So
  25 rows give 20 shown rows and the truncation message, 20 rows give the total 20.
\<close>

theorem execute_sql_preview:
  assumes "db_execute G (db w) query = Inr (d, c)" and "db_commit G d = Inr d'"
    and "cur_description c = Some header"
    and "\<forall>r \<in> set (take 20 (cur_rows c)). length r \<le> length header"
  shows "(\<exists>widths.
      widen_all (replicate (length header) 0)
        (header # map (map (cell_text G)) (take 20 (cur_rows c))) = Inr widths \<and>
      execute_sql G query w =
        (Inr True,
         w\<lparr>db := d',
           trace := trace w @ [Execute query, Commit] @ preview_fetches (cur_rows c) @
             map (\<lambda>l. Print (format_row widths l))
               (header # map (map (cell_text G)) (take 20 (cur_rows c))) @
             preview_verdict (cur_rows c)\<rparr>)) \<and>
    length (take 20 (cur_rows c)) \<le> 20 \<and>
    (length (cur_rows c) = 25 \<longrightarrow>
       length (take 20 (cur_rows c)) = 20 \<and>
       preview_fetches (cur_rows c) = map (\<lambda>r. FetchOne (Some r)) (take 20 (cur_rows c)) \<and>
       preview_verdict (cur_rows c) =
         [FetchOne (Some (cur_rows c ! 20)), Print (ustr ''Output first 20 rows.'')]) \<and>
    (length (cur_rows c) = 20 \<longrightarrow>
       preview_fetches (cur_rows c) = map (\<lambda>r. FetchOne (Some r)) (cur_rows c) \<and>
       preview_verdict (cur_rows c) =
         [FetchOne None, Print (ustr ''Output all 20 row(s).'')]) \<and>
    (cur_rows c = [] \<longrightarrow>
       preview_fetches (cur_rows c) = [FetchOne None] \<and>
       preview_verdict (cur_rows c) = [Print (ustr ''Query returned zero rows.'')])"
proof (intro conjI impI)
  show "\<exists>widths.
      widen_all (replicate (length header) 0)
        (header # map (map (cell_text G)) (take 20 (cur_rows c))) = Inr widths \<and>
      execute_sql G query w =
        (Inr True,
         w\<lparr>db := d',
           trace := trace w @ [Execute query, Commit] @ preview_fetches (cur_rows c) @
             map (\<lambda>l. Print (format_row widths l))
               (header # map (map (cell_text G)) (take 20 (cur_rows c))) @
             preview_verdict (cur_rows c)\<rparr>)"
    using assms by (rule execute_sql_rows)
  show "length (take 20 (cur_rows c)) \<le> 20"
    by simp
  show "length (take 20 (cur_rows c)) = 20" if "length (cur_rows c) = 25"
    using that by simp
  show "preview_fetches (cur_rows c) = map (\<lambda>r. FetchOne (Some r)) (take 20 (cur_rows c))"
    if "length (cur_rows c) = 25"
    using that by (simp add: preview_fetches_def)
  show "preview_verdict (cur_rows c) =
      [FetchOne (Some (cur_rows c ! 20)), Print (ustr ''Output first 20 rows.'')]"
    if "length (cur_rows c) = 25"
    using that by (auto simp: preview_verdict_def)
  show "preview_fetches (cur_rows c) = map (\<lambda>r. FetchOne (Some r)) (cur_rows c)"
    if "length (cur_rows c) = 20"
    using that by (simp add: preview_fetches_def)
  show "preview_verdict (cur_rows c) = [FetchOne None, Print (ustr ''Output all 20 row(s).'')]"
    if "length (cur_rows c) = 20"
    using that by (auto simp: preview_verdict_def str_nat.simps ustr_def)
  show "preview_fetches (cur_rows c) = [FetchOne None]" if "cur_rows c = []"
    using that by (simp add: preview_fetches_def)
  show "preview_verdict (cur_rows c) = [Print (ustr ''Query returned zero rows.'')]"
    if "cur_rows c = []"
    using that by (simp add: preview_verdict_def)
qed

theorem execute_sql_preview_witness:
  "db_execute (fixed_engine (select_cursor 25)) (db (world0 Map.empty []))
     (ustr ''SELECT a FROM t'') = Inr ((), select_cursor 25) \<and>
   db_commit (fixed_engine (select_cursor 25)) () = Inr () \<and>
   cur_description (select_cursor 25) = Some [ustr ''a''] \<and>
   length (cur_rows (select_cursor 25)) = 25 \<and>
   fst (execute_sql (fixed_engine (select_cursor 25)) (ustr ''SELECT a FROM t'')
     (world0 Map.empty [])) = Inr True \<and>
   preview_verdict (cur_rows (select_cursor 25)) =
     [FetchOne (Some [Some (ustr ''x'')]), Print (ustr ''Output first 20 rows.'')]"
proof -
  let ?G = "fixed_engine (select_cursor 25)"
  let ?w = "world0 Map.empty [] :: (unit, pystr) world"
  have 1: "db_execute ?G (db ?w) (ustr ''SELECT a FROM t'') = Inr ((), select_cursor 25)"
    by (simp add: fixed_engine_def)
  have 2: "db_commit ?G () = Inr ()"
    by (simp add: fixed_engine_def)
  have 3: "cur_description (select_cursor 25) = Some [ustr ''a'']"
    by (simp add: select_cursor_def)
  have 4: "\<forall>r \<in> set (take 20 (cur_rows (select_cursor 25))). length r \<le> length [ustr ''a'']"
    by (simp add: select_cursor_def)
  have 5: "length (cur_rows (select_cursor 25)) = 25"
    by (simp add: select_cursor_def)
  have 6: "cur_rows (select_cursor 25) ! 20 = [Some (ustr ''x'')]"
    by (simp add: select_cursor_def)
  note t = execute_sql_preview [OF 1 2 3 4]
  from t have "fst (execute_sql ?G (ustr ''SELECT a FROM t'') ?w) = Inr True"
    by auto
  moreover from t 5 have "preview_verdict (cur_rows (select_cursor 25)) =
      [FetchOne (Some (cur_rows (select_cursor 25) ! 20)), Print (ustr ''Output first 20 rows.'')]"
    by blast
  ultimately show ?thesis
    using 1 2 3 5 6 by simp
qed






text \<open>
  C8. When the header row has an empty field, \<open>import_\<close> raises a \<open>ValueError\<close> whose
  message names the position of the first empty field, counted from 1. This happens
  right after the file name is read: the store is not touched and nothing is executed.
\<close>

theorem import_empty_header_aborts:
  assumes "stdin w = filename # rest" and "files w filename = Some (header_row # data)"
    and "[] \<in> set header_row"
  shows "import' G E w =
      (Inl (ValueError (ustr ''There is no header in row 1, column '' @
              str_nat (index_of [] header_row + 1))),
       (emit (Prompt (ustr ''Enter a CSV file to import: '')) w)\<lparr>stdin := rest\<rparr>) \<and>
    index_of [] header_row < length header_row \<and>
    header_row ! index_of [] header_row = [] \<and>
    (\<forall>j<index_of [] header_row. header_row ! j \<noteq> []) \<and>
    db (snd (import' G E w)) = db w \<and>
    trace (snd (import' G E w)) = trace w @ [Prompt (ustr ''Enter a CSV file to import: '')]"
proof -
  have "import' G E w =
      (Inl (ValueError (ustr ''There is no header in row 1, column '' @
              str_nat (index_of [] header_row + 1))),
       (emit (Prompt (ustr ''Enter a CSV file to import: '')) w)\<lparr>stdin := rest\<rparr>)"
    using import_empty_header [OF assms, of G E] by (simp add: no_header_message_def)
  moreover from this have "db (snd (import' G E w)) = db w"
    "trace (snd (import' G E w)) = trace w @ [Prompt (ustr ''Enter a CSV file to import: '')]"
    by (simp_all add: emit_def)
  ultimately show ?thesis
    using index_of_first [OF assms(3)] by simp
qed

theorem import_empty_header_aborts_witness:
  "stdin (world0 [ustr ''in.csv'' \<mapsto> [[ustr ''a'', [], ustr ''c''], [ustr ''1'']]]
      [ustr ''in.csv'', ustr ''t'']) = ustr ''in.csv'' # [ustr ''t''] \<and>
   [] \<in> set [ustr ''a'', [], ustr ''c''] \<and>
   fst (import' (fixed_engine (select_cursor 0)) ascii_env
     (world0 [ustr ''in.csv'' \<mapsto> [[ustr ''a'', [], ustr ''c''], [ustr ''1'']]]
        [ustr ''in.csv'', ustr ''t''])) =
     Inl (ValueError (ustr ''There is no header in row 1, column 2'')) \<and>
   trace (snd (import' (fixed_engine (select_cursor 0)) ascii_env
     (world0 [ustr ''in.csv'' \<mapsto> [[ustr ''a'', [], ustr ''c''], [ustr ''1'']]]
        [ustr ''in.csv'', ustr ''t'']))) = [Prompt (ustr ''Enter a CSV file to import: '')]"
proof -
  let ?w = "world0 [ustr ''in.csv'' \<mapsto> [[ustr ''a'', [], ustr ''c''], [ustr ''1'']]]
      [ustr ''in.csv'', ustr ''t'']"
  have 1: "stdin ?w = ustr ''in.csv'' # [ustr ''t'']"
    by (simp add: world0_def)
  have 2: "files ?w (ustr ''in.csv'') = Some ([ustr ''a'', [], ustr ''c''] # [[ustr ''1'']])"
    by (simp add: world0_def)
  have 3: "[] \<in> set [ustr ''a'', [], ustr ''c'']"
    by simp
  have 4: "str_nat (index_of [] [ustr ''a'', [], ustr ''c''] + 1) = ustr ''2''"
    by (simp add: ustr_def str_nat.simps)
  have 5: "ustr ''There is no header in row 1, column '' @ ustr ''2'' =
      ustr ''There is no header in row 1, column 2''"
    by (simp add: ustr_def)
  have 6: "trace ?w = []"
    by (simp add: world0_def)
  note t = import_empty_header_aborts [OF 1 2 3, of "fixed_engine (select_cursor 0)" ascii_env]
  from t have "fst (import' (fixed_engine (select_cursor 0)) ascii_env ?w) =
      Inl (ValueError (ustr ''There is no header in row 1, column 2''))"
    unfolding 4 5 by simp
  moreover from t have "trace (snd (import' (fixed_engine (select_cursor 0)) ascii_env ?w)) =
      [Prompt (ustr ''Enter a CSV file to import: '')]"
    by (simp add: emit_def world0_def)
  ultimately show ?thesis
    using 1 3 by simp
qed

lemma execute_sql_result:
  assumes "execute_sql G query w = (Inr b, w')"
  shows "\<exists>d c. db_execute G (db w) query = Inr (d, c) \<and> (b \<longleftrightarrow> cur_description c \<noteq> None)"
proof (cases "db_execute G (db w) query")
  case (Inl e)
  with assms show ?thesis
    by (simp add: execute_sql_def then_do_def execute_def)
next
  case (Inr dc)
  obtain d c where dc: "dc = (d, c)"
    by (cases dc)
  show ?thesis
  proof (cases "cur_description c")
    case None
    with assms Inr dc show ?thesis
      by (auto simp: execute_sql_def then_do_def execute_def return_def print_def
          split: sum.splits prod.splits if_splits)
  next
    case (Some header)
    with assms Inr dc show ?thesis
      by (auto simp: execute_sql_def then_do_def execute_def return_def print_def
          split: sum.splits prod.splits if_splits)
  qed
qed

lemma repl_reaches_loop:
  "repl_reaches G E s t \<Longrightarrow> repl_loop G E (fst s) (snd s) = repl_loop G E (fst t) (snd t)"
proof (induction rule: repl_reaches.induct)
  case start
  show ?case by simp
next
  case (step last_query w query w1 last_query' w2)
  have "repl_loop G E last_query w = repl_loop G E last_query' w2"
    using step.hyps(2,3) by (subst repl_loop.simps) simp
  with step.IH show ?case
    by simp
qed

lemma repl_reaches_last_query:
  "repl_reaches G E s t \<Longrightarrow> fst s = None \<Longrightarrow>
    fst t = None \<or>
    (\<exists>q lq1 w1 w1' w2. fst t = Some q \<and> repl_reaches G E s (lq1, w1) \<and>
       input (ustr ''> '') w1 = (Inr q, w1') \<and> execute_sql G q w1' = (Inr True, w2))"
proof (induction rule: repl_reaches.induct)
  case start
  then show ?case by simp
next
  case (step last_query w query w1 last_query' w2)
  show ?case
  proof (cases "last_query' = last_query")
    case True
    with step show ?thesis by simp
  next
    case False
    from repl_body_changes [OF step.hyps(3) False]
    have "execute_sql G query w1 = (Inr True, w2)" and "last_query' = Some query"
      by simp_all
    with step.hyps(1,2) show ?thesis
      by auto
  qed
qed

text \<open>
  C9. \<open>run_repl\<close> enters its loop with \<open>last_query = None\<close>. One command changes
  \<open>last_query\<close> only when it is a statement (neither \<open>import\<close> nor \<open>export\<close>) that
  \<open>execute_sql\<close> ran without exception and with a result set, and then to that statement.
  A statement that raises leaves it as it was (the error is printed and the loop goes
  on), and so does a statement without result set. Hence, at every state the loop
  reaches, \<open>last_query\<close> is \<open>None\<close> or a statement that was typed at an earlier state of
  the same run and ran there with a result set. \<open>export\<close> with \<open>last_query = None\<close> prints
  one line and changes neither the files nor the store.
\<close>

theorem last_query_updates:
  "run_repl G E w0 =
     repl_loop G E None
       (emit (Print (ustr ''Enter '' @ quote @ ustr ''import'' @ quote @ ustr '', '' @ quote @
          ustr ''export'' @ quote @ ustr '', or a SQL query.'')) w0) \<and>
   (repl_body G E last_query query w = (last_query', w') \<and> last_query' \<noteq> last_query \<longrightarrow>
      query \<noteq> ustr ''import'' \<and> query \<noteq> ustr ''export'' \<and>
      execute_sql G query w = (Inr True, w') \<and> last_query' = Some query) \<and>
   (execute_sql G query w = (Inr True, w') \<longrightarrow>
      (\<exists>d c. db_execute G (db w) query = Inr (d, c) \<and> cur_description c \<noteq> None)) \<and>
   (query \<noteq> ustr ''import'' \<and> query \<noteq> ustr ''export'' \<and>
    execute_sql G query w = (Inl e, w') \<longrightarrow>
      repl_body G E last_query query w =
        (last_query, emit (Print (ustr ''Error: '' @ exn_message e)) w')) \<and>
   (query \<noteq> ustr ''import'' \<and> query \<noteq> ustr ''export'' \<and>
    execute_sql G query w = (Inr False, w') \<longrightarrow>
      repl_body G E last_query query w = (last_query, w')) \<and>
   (repl_reaches G E (None, w0) (last_query, w) \<longrightarrow>
      repl_loop G E None w0 = repl_loop G E last_query w \<and>
      (last_query = None \<or>
       (\<exists>q lq1 w1 w1' w2. last_query = Some q \<and>
          repl_reaches G E (None, w0) (lq1, w1) \<and>
          input (ustr ''> '') w1 = (Inr q, w1') \<and>
          execute_sql G q w1' = (Inr True, w2)))) \<and>
   repl_body G E None (ustr ''export'') w =
     (None, emit (Print (ustr ''You must enter a SQL query before exporting.'')) w) \<and>
   files (emit (Print (ustr ''You must enter a SQL query before exporting.'')) w) = files w \<and>
   db (emit (Print (ustr ''You must enter a SQL query before exporting.'')) w) = db w \<and>
   trace (emit (Print (ustr ''You must enter a SQL query before exporting.'')) w) =
     trace w @ [Print (ustr ''You must enter a SQL query before exporting.'')]"
proof (intro conjI impI)
  show "run_repl G E w0 =
     repl_loop G E None
       (emit (Print (ustr ''Enter '' @ quote @ ustr ''import'' @ quote @ ustr '', '' @ quote @
          ustr ''export'' @ quote @ ustr '', or a SQL query.'')) w0)"
    by (simp add: run_repl_def)
  show "query \<noteq> ustr ''import''" "query \<noteq> ustr ''export''"
    "execute_sql G query w = (Inr True, w')" "last_query' = Some query"
    if "repl_body G E last_query query w = (last_query', w') \<and> last_query' \<noteq> last_query"
    using repl_body_changes [of G E last_query query w last_query' w'] that by simp_all
  show "\<exists>d c. db_execute G (db w) query = Inr (d, c) \<and> cur_description c \<noteq> None"
    if "execute_sql G query w = (Inr True, w')"
    using execute_sql_result [OF that] by simp
  show "repl_body G E last_query query w =
      (last_query, emit (Print (ustr ''Error: '' @ exn_message e)) w')"
    if "query \<noteq> ustr ''import'' \<and> query \<noteq> ustr ''export'' \<and>
      execute_sql G query w = (Inl e, w')"
    using that by (simp add: repl_statement_fails)
  show "repl_body G E last_query query w = (last_query, w')"
    if "query \<noteq> ustr ''import'' \<and> query \<noteq> ustr ''export'' \<and>
      execute_sql G query w = (Inr False, w')"
    using that by (simp add: repl_statement_mutates)
  show "repl_loop G E None w0 = repl_loop G E last_query w"
    if "repl_reaches G E (None, w0) (last_query, w)"
    using repl_reaches_loop [OF that] by simp
  show "last_query = None \<or>
      (\<exists>q lq1 w1 w1' w2. last_query = Some q \<and>
         repl_reaches G E (None, w0) (lq1, w1) \<and>
         input (ustr ''> '') w1 = (Inr q, w1') \<and>
         execute_sql G q w1' = (Inr True, w2))"
    if "repl_reaches G E (None, w0) (last_query, w)"
    using repl_reaches_last_query [OF that] by simp
  show "repl_body G E None (ustr ''export'') w =
      (None, emit (Print (ustr ''You must enter a SQL query before exporting.'')) w)"
    by (rule repl_export_none)
qed (simp_all add: emit_def)

theorem last_query_updates_witness:
  "execute_sql (failing_engine (ustr ''syntax error'')) (ustr ''SELEC'') (world0 Map.empty []) =
     (Inl (DatabaseError (ustr ''syntax error'')),
      emit (Execute (ustr ''SELEC'')) (world0 Map.empty [])) \<and>
   repl_body (failing_engine (ustr ''syntax error'')) ascii_env (Some (ustr ''SELECT 1''))
       (ustr ''SELEC'') (world0 Map.empty []) =
     (Some (ustr ''SELECT 1''),
      emit (Print (ustr ''Error: syntax error''))
        (emit (Execute (ustr ''SELEC'')) (world0 Map.empty []))) \<and>
   fst (execute_sql (fixed_engine mutating_cursor) (ustr ''DELETE FROM t'')
       (world0 Map.empty [])) = Inr False \<and>
   fst (repl_body (fixed_engine mutating_cursor) ascii_env (Some (ustr ''SELECT 1''))
       (ustr ''DELETE FROM t'') (world0 Map.empty [])) = Some (ustr ''SELECT 1'') \<and>
   fst (repl_body (fixed_engine (select_cursor 1)) ascii_env None (ustr ''SELECT a FROM t'')
       (world0 Map.empty [])) = Some (ustr ''SELECT a FROM t'') \<and>
   fst (execute_sql (fixed_engine (select_cursor 1)) (ustr ''SELECT a FROM t'')
       (world0 Map.empty [])) = Inr True \<and>
   (\<exists>w'. repl_reaches (fixed_engine (select_cursor 1)) ascii_env
      (None, world0 Map.empty [ustr ''SELECT a FROM t''])
      (Some (ustr ''SELECT a FROM t''), w'))"
proof -
  let ?w = "world0 Map.empty [] :: (unit, pystr) world"
  let ?F = "failing_engine (ustr ''syntax error'')"
  let ?M = "fixed_engine mutating_cursor"
  let ?S = "fixed_engine (select_cursor 1)"
  have ne: "ustr ''SELEC'' \<noteq> ustr ''import'' \<and> ustr ''SELEC'' \<noteq> ustr ''export''"
    "ustr ''DELETE FROM t'' \<noteq> ustr ''import'' \<and> ustr ''DELETE FROM t'' \<noteq> ustr ''export''"
    by (simp_all add: ustr_def)
  have f: "execute_sql ?F (ustr ''SELEC'') ?w =
      (Inl (DatabaseError (ustr ''syntax error'')), emit (Execute (ustr ''SELEC'')) ?w)"
    by (simp add: execute_sql_def then_do_def execute_def failing_engine_def)
  have m1: "fst (execute_sql ?M (ustr ''DELETE FROM t'') ?w) = Inr False"
    by (simp add: execute_sql_def then_do_def execute_def commit_def fixed_engine_def
        mutating_cursor_def fetch_rows_eq print_def return_def)
  then have m: "execute_sql ?M (ustr ''DELETE FROM t'') ?w =
      (Inr False, snd (execute_sql ?M (ustr ''DELETE FROM t'') ?w))"
    by (metis prod.collapse)
  have msg: "ustr ''Error: '' @ exn_message (DatabaseError (ustr ''syntax error'')) =
      ustr ''Error: syntax error''"
    by (simp add: exn_message_def ustr_def)
  from last_query_updates [of ?F ascii_env ?w "Some (ustr ''SELECT 1'')" "ustr ''SELEC''" ?w
      "Some (ustr ''SELECT 1'')" "emit (Execute (ustr ''SELEC'')) ?w"
      "DatabaseError (ustr ''syntax error'')"] ne(1) f
  have 1: "repl_body ?F ascii_env (Some (ustr ''SELECT 1'')) (ustr ''SELEC'') ?w =
      (Some (ustr ''SELECT 1''),
       emit (Print (ustr ''Error: syntax error'')) (emit (Execute (ustr ''SELEC'')) ?w))"
    unfolding msg by blast
  from last_query_updates [of ?M ascii_env ?w "Some (ustr ''SELECT 1'')" "ustr ''DELETE FROM t''"
      ?w "Some (ustr ''SELECT 1'')" "snd (execute_sql ?M (ustr ''DELETE FROM t'') ?w)"] ne(2) m
  have 2: "repl_body ?M ascii_env (Some (ustr ''SELECT 1'')) (ustr ''DELETE FROM t'') ?w =
      (Some (ustr ''SELECT 1''), snd (execute_sql ?M (ustr ''DELETE FROM t'') ?w))"
    by blast
  obtain lq w' where b: "repl_body ?S ascii_env None (ustr ''SELECT a FROM t'') ?w = (lq, w')"
    by (cases "repl_body ?S ascii_env None (ustr ''SELECT a FROM t'') ?w")
  have lq: "lq = Some (ustr ''SELECT a FROM t'')"
    using b
    by (simp add: repl_body_def repl_command_def ustr_def execute_sql_def then_do_def
        execute_def commit_def fixed_engine_def select_cursor_def fetch_rows_eq print_def
        return_def print_table_def widen_def print_lines_eq fetchone_def
        split: prod.splits sum.splits)
  then have "lq \<noteq> None"
    by simp
  with last_query_updates [of ?S ascii_env ?w None "ustr ''SELECT a FROM t''" ?w lq w'] b
  have 3: "execute_sql ?S (ustr ''SELECT a FROM t'') ?w = (Inr True, w')"
    by blast
  let ?wi = "world0 Map.empty [ustr ''SELECT a FROM t''] :: (unit, pystr) world"
  let ?w1 = "(emit (Prompt (ustr ''> '')) ?wi)\<lparr>stdin := []\<rparr>"
  have i: "input (ustr ''> '') ?wi = (Inr (ustr ''SELECT a FROM t''), ?w1)"
    by (simp add: input_def world0_def)
  obtain lq2 w2 where b2:
    "repl_body ?S ascii_env None (ustr ''SELECT a FROM t'') ?w1 = (lq2, w2)"
    by (cases "repl_body ?S ascii_env None (ustr ''SELECT a FROM t'') ?w1")
  have "lq2 = Some (ustr ''SELECT a FROM t'')"
    using b2
    by (simp add: repl_body_def repl_command_def ustr_def execute_sql_def then_do_def
        execute_def commit_def fixed_engine_def select_cursor_def fetch_rows_eq print_def
        return_def print_table_def widen_def print_lines_eq fetchone_def
        split: prod.splits sum.splits)
  with repl_reaches.step [OF repl_reaches.start i b2]
  have 4: "\<exists>w'. repl_reaches ?S ascii_env (None, ?wi) (Some (ustr ''SELECT a FROM t''), w')"
    by blast
  from f 1 2 3 m1 b lq 4 show ?thesis
    by simp
qed

end
